theory Spec2Isabelle
  imports Main "HOL-Library.Multiset"
begin

section \<open>The agent scanner of opensymbolicai\_cli (scanner.py)\<close>

text \<open>
  The scanner reads Python files, parses them with the \<^verbatim>\<open>ast\<close> module and walks the syntax
  tree for classes that extend \<^verbatim>\<open>PlanExecute\<close> or \<^verbatim>\<open>Planner\<close>. The functions of scanner.py are
  embedded below under their own names. What scanner.py takes from the Python library without
  defining it (the parser, \<^verbatim>\<open>inspect.cleandoc\<close>, \<^verbatim>\<open>pathlib\<close>, the file system, \<^verbatim>\<open>json.load\<close>) is a
  field of the record \<open>world\<close>, so every theorem holds for whatever these return.
\<close>

subsection \<open>Python values\<close>

text \<open>
  Exception classes, at the granularity of the \<^verbatim>\<open>except\<close> clauses of scanner.py: \<open>OSError\<close>
  and \<open>SyntaxError\<close> stand for the class and its subclasses, \<open>JSONDecodeError\<close> is
  \<^verbatim>\<open>json.JSONDecodeError\<close>. The last four are subclasses of none of these three, so no
  \<^verbatim>\<open>except\<close> clause of scanner.py catches them: \<open>UnicodeDecodeError\<close> is what reading a file
  as UTF-8 raises on bytes that are not UTF-8, \<open>AttributeError\<close> what \<^verbatim>\<open>data.get\<close> raises on a
  value that is no dictionary, \<open>ValidationError\<close> what a pydantic model raises on a field of
  the wrong type.
\<close>

datatype py_error =
    SyntaxError
  | OSError
  | JSONDecodeError
  | UnicodeDecodeError
  | AttributeError
  | ValidationError
  | ValueError

text \<open>
  The value of an \<^verbatim>\<open>ast.Constant\<close>. Integer literals are never negative (the sign is a unary
  operator node). \<open>COther\<close> is a float, complex or bytes literal, given by its \<^verbatim>\<open>str()\<close> text
  and its truth value.
\<close>

datatype const =
    CStr string
  | CBool bool
  | CInt nat
  | CNone
  | CEllipsis
  | COther string bool

text \<open>
  Syntax tree nodes. The constructors are the node classes that scanner.py tests with
  \<^verbatim>\<open>isinstance\<close>, with the fields it reads; every other node class is \<open>Other\<close> with its child
  nodes in the order \<^verbatim>\<open>ast.iter_child_nodes\<close> yields them (an \<^verbatim>\<open>async def\<close> is such a node: it is
  no instance of \<^verbatim>\<open>ast.FunctionDef\<close>). The expression context nodes (\<^verbatim>\<open>Load\<close>, \<^verbatim>\<open>Store\<close>) are
  left out: they are leaves that no test of scanner.py matches.

  \<open>FunctionDef name args body decorator_list returns type_params lineno end_lineno\<close>,
  \<open>ClassDef name bases keywords body decorator_list type_params\<close>,
  \<open>Call func args keywords\<close>, a keyword being the pair of its \<^verbatim>\<open>arg\<close> (\<open>None\<close> for \<^verbatim>\<open>**kwargs\<close>)
  and its value.
\<close>

datatype node =
    Name string
  | Attribute node string
  | Call node "node list" "(string option \<times> node) list"
  | Keyword "string option" node
  | Constant const
  | Expr node
  | FunctionDef string node "node list" "node list" "node option" "node list" nat "nat option"
  | ClassDef string "node list" "(string option \<times> node) list" "node list" "node list" "node list"
  | Module "node list"
  | Other "node list"

text \<open>JSON values as \<^verbatim>\<open>json.load\<close> returns them; an object keeps its members in file order.\<close>

datatype json =
    JObject "(string \<times> json) list"
  | JArray "json list"
  | JString string
  | JInt int
  | JFloat string
  | JBool bool
  | JNull

subsection \<open>Strings\<close>

text \<open>
  A \<open>char\<close> stands for a code point below 256. \<open>is_space\<close> is \<^verbatim>\<open>str.isspace\<close> on that range,
  which is what \<^verbatim>\<open>strip()\<close> and \<^verbatim>\<open>rstrip()\<close> remove; \<open>is_linebreak\<close> are the line boundaries
  of \<^verbatim>\<open>str.splitlines\<close>.
\<close>

definition is_space :: "char \<Rightarrow> bool" where
  "is_space c = (of_char c \<in> {9, 10, 11, 12, 13, 28, 29, 30, 31, 32, 133, 160 :: nat})"

definition is_linebreak :: "char \<Rightarrow> bool" where
  "is_linebreak c = (of_char c \<in> {10, 11, 12, 13, 28, 29, 30, 133 :: nat})"

definition rstrip :: "string \<Rightarrow> string" where
  "rstrip s = rev (dropWhile is_space (rev s))"

definition strip :: "string \<Rightarrow> string" where
  "strip s = rstrip (dropWhile is_space s)"

text \<open>\<^verbatim>\<open>"\n".join(parts)\<close>\<close>

fun join_nl :: "string list \<Rightarrow> string" where
  "join_nl [] = []"
| "join_nl [x] = x"
| "join_nl (x # y # ys) = x @ CHR 0x0A # join_nl (y # ys)"

text \<open>\<^verbatim>\<open>sub in s\<close>\<close>

fun contains :: "string \<Rightarrow> string \<Rightarrow> bool" where
  "contains sub [] = (sub = [])"
| "contains sub (c # cs) = (take (length sub) (c # cs) = sub \<or> contains sub cs)"

text \<open>\<^verbatim>\<open>s.split("\n")[0]\<close>\<close>

definition first_line :: "string \<Rightarrow> string" where
  "first_line s = takeWhile (\<lambda>c. c \<noteq> CHR 0x0A) s"

text \<open>
  \<^verbatim>\<open>source.splitlines()\<close>: \<open>cur\<close> is the line being read, reversed. A carriage return followed
  by a line feed is one boundary; a boundary at the very end opens no further line.
\<close>

fun splitlines_from :: "string \<Rightarrow> string \<Rightarrow> string list" where
  "splitlines_from cur [] = (if cur = [] then [] else [rev cur])"
| "splitlines_from cur [c] = (if is_linebreak c then [rev cur] else [rev (c # cur)])"
| "splitlines_from cur (c # d # ds) =
     (if c = CHR 0x0D \<and> d = CHR 0x0A then rev cur # splitlines_from [] ds
      else if is_linebreak c then rev cur # splitlines_from [] (d # ds)
      else splitlines_from (c # cur) (d # ds))"

definition splitlines :: "string \<Rightarrow> string list" where
  "splitlines s = splitlines_from [] s"

fun digits :: "nat \<Rightarrow> string" where
  "digits n =
     (if n < 10 then [char_of (48 + n)]
      else digits (n div 10) @ [char_of (48 + n mod 10)])"

declare digits.simps [simp del]

text \<open>\<^verbatim>\<open>str(value)\<close> and \<^verbatim>\<open>bool(value)\<close> of a constant's value.\<close>

fun py_str :: "const \<Rightarrow> string" where
  "py_str (CStr s) = s"
| "py_str (CBool b) = (if b then ''True'' else ''False'')"
| "py_str (CInt n) = digits n"
| "py_str CNone = ''None''"
| "py_str CEllipsis = ''Ellipsis''"
| "py_str (COther s b) = s"

fun py_bool :: "const \<Rightarrow> bool" where
  "py_bool (CStr s) = (s \<noteq> [])"
| "py_bool (CBool b) = b"
| "py_bool (CInt n) = (n \<noteq> 0)"
| "py_bool CNone = False"
| "py_bool CEllipsis = True"
| "py_bool (COther s b) = b"

subsection \<open>Walking the tree\<close>

text \<open>
  \<^verbatim>\<open>ast.iter_child_nodes\<close>: the child nodes in the order of the node class's \<^verbatim>\<open>_fields\<close>.
  A keyword of a call or of a class is a node of its own, whose child is its value.
\<close>

fun iter_child_nodes :: "node \<Rightarrow> node list" where
  "iter_child_nodes (Name ident) = []"
| "iter_child_nodes (Attribute v attr) = [v]"
| "iter_child_nodes (Call func args keywords) =
     func # args @ map (\<lambda>(a, v). Keyword a v) keywords"
| "iter_child_nodes (Keyword a v) = [v]"
| "iter_child_nodes (Constant c) = []"
| "iter_child_nodes (Expr v) = [v]"
| "iter_child_nodes (FunctionDef name args body decorator_list returns type_params lineno end_lineno) =
     args # body @ decorator_list @ (case returns of None \<Rightarrow> [] | Some r \<Rightarrow> [r]) @ type_params"
| "iter_child_nodes (ClassDef name bases keywords body decorator_list type_params) =
     bases @ map (\<lambda>(a, v). Keyword a v) keywords @ body @ decorator_list @ type_params"
| "iter_child_nodes (Module body) = body"
| "iter_child_nodes (Other children) = children"

text \<open>
  \<^verbatim>\<open>ast.walk\<close> keeps a queue: it takes the first node, appends its children at the end and
  yields it. \<open>walk_queue\<close> is that loop on the queue, \<open>walk\<close> starts it on one node.
\<close>

function walk_queue :: "node list \<Rightarrow> node list" where
  "walk_queue [] = []"
| "walk_queue (n # todo) = n # walk_queue (todo @ iter_child_nodes n)"
  by pat_completeness auto
termination
proof (relation "measure (\<lambda>q. sum_list (map (\<lambda>n. Suc (size n)) q))")
  show "wf (measure (\<lambda>q. sum_list (map (\<lambda>n. Suc (size n)) q)))" by simp
next
  fix n :: node and todo :: "node list"
  have node_size: "sum_list (map (\<lambda>n. Suc (size n)) xs) = size_list size xs" for xs :: "node list"
    by (induction xs) auto
  have kw_size: "sum_list (map ((\<lambda>n. Suc (size n)) \<circ> (\<lambda>(a, v). Keyword a v)) kws)
      = size_list (size_prod (\<lambda>_. 0) size) kws" for kws :: "(string option \<times> node) list"
    by (induction kws) auto
  have "sum_list (map (\<lambda>n. Suc (size n)) (iter_child_nodes n)) \<le> size n"
  proof (cases n)
    case (FunctionDef name args body decs returns tps lineno end_lineno)
    then show ?thesis by (cases returns) (simp_all add: node_size)
  qed (simp_all add: node_size kw_size)
  then show "(todo @ iter_child_nodes n, n # todo)
      \<in> measure (\<lambda>q. sum_list (map (\<lambda>n. Suc (size n)) q))"
    by simp
qed

definition walk :: "node \<Rightarrow> node list" where
  "walk n = walk_queue [n]"

subsection \<open>The library and the file system\<close>

text \<open>
  What scanner.py calls and does not define. \<open>'p\<close> is the type of paths.
  \<open>read_text\<close> is \<^verbatim>\<open>Path.read_text(encoding="utf-8")\<close>, \<open>ast_parse\<close> is \<^verbatim>\<open>ast.parse\<close>,
  \<open>json_load\<close> is opening a path and \<^verbatim>\<open>json.load\<close> of it, each with the exception it may
  raise; \<open>rglob_py\<close> is \<^verbatim>\<open>directory.rglob("*.py")\<close>.
\<close>

record 'p world =
  cleandoc :: "string \<Rightarrow> string"
  read_text :: "'p \<Rightarrow> py_error + string"
  ast_parse :: "string \<Rightarrow> py_error + node"
  json_load :: "'p \<Rightarrow> py_error + json"
  path_stem :: "'p \<Rightarrow> string"
  path_parent :: "'p \<Rightarrow> 'p"
  path_join :: "'p \<Rightarrow> string \<Rightarrow> 'p"
  path_parts :: "'p \<Rightarrow> string list"
  path_exists :: "'p \<Rightarrow> bool"
  path_is_file :: "'p \<Rightarrow> bool"
  path_is_dir :: "'p \<Rightarrow> bool"
  rglob_py :: "'p \<Rightarrow> 'p list"

subsection \<open>The records of scanner.py\<close>

text \<open>
  \<^verbatim>\<open>DiscoveredMethod\<close>, \<^verbatim>\<open>DiscoveredAgent\<close> and \<^verbatim>\<open>ManifestMetadata\<close>. Their field names carry a
  prefix (\<open>dm_\<close>, \<open>da_\<close>, \<open>mm_\<close>), since the three classes share the field \<^verbatim>\<open>name\<close>.
\<close>

record discovered_method =
  dm_name :: string
  dm_method_type :: string
  dm_docstring :: string
  dm_signature :: string
  dm_source :: string
  dm_line_number :: nat
  dm_read_only :: bool
  dm_intent :: string
  dm_expanded_intent :: string

record 'p discovered_agent =
  da_name :: string
  da_class_name :: string
  da_file_path :: 'p
  da_description :: string
  da_version :: string
  da_base_class :: string
  da_methods :: "discovered_method list"

record manifest_metadata =
  mm_name :: string
  mm_description :: string
  mm_version :: string

subsection \<open>Signature and source of a method\<close>

text \<open>
  The loop of \<^verbatim>\<open>_get_method_signature\<close> over the lines it visits: each line is appended with
  its trailing whitespace removed, and the loop breaks after a line that contains \<^verbatim>\<open>"):"\<close>
  or \<^verbatim>\<open>") ->"\<close>.
\<close>

fun signature_parts :: "string list \<Rightarrow> string list" where
  "signature_parts [] = []"
| "signature_parts (line # rest) =
     rstrip line #
       (if contains ''):'' line \<or> contains '') ->'' line then [] else signature_parts rest)"

text \<open>
  The parser numbers lines from 1, so \<open>lineno - 1\<close> is an index into the line buffer. The
  lines visited are those at the indices of
  \<^verbatim>\<open>range(start_line, min(start_line + 10, len(source_lines)))\<close>.
\<close>

definition get_method_signature :: "nat \<Rightarrow> string list \<Rightarrow> string" where
  "get_method_signature lineno source_lines =
     (let start_line = lineno - 1;
          visited = map (\<lambda>i. source_lines ! i)
                      [start_line ..< min (start_line + 10) (length source_lines)]
      in strip (join_nl (signature_parts visited)))"

text \<open>\<^verbatim>\<open>source_lines[start_line:end_line]\<close> is \<open>drop start_line (take end_line source_lines)\<close>.\<close>

definition get_method_source :: "nat \<Rightarrow> nat option \<Rightarrow> string list \<Rightarrow> string" where
  "get_method_source lineno end_lineno source_lines =
     (let start_line = lineno - 1;
          end_line = (case end_lineno of
                        None \<Rightarrow> start_line + 1
                      | Some e \<Rightarrow> if e \<noteq> 0 then e else start_line + 1)
      in join_nl (drop start_line (take end_line source_lines)))"

text \<open>
  \<^verbatim>\<open>ast.get_docstring\<close> of a class or function with the given body: the first statement, when
  it is an expression statement of a string constant, cleaned by \<^verbatim>\<open>inspect.cleandoc\<close>.
\<close>

fun get_docstring :: "'p world \<Rightarrow> node list \<Rightarrow> string option" where
  "get_docstring w (Expr (Constant (CStr text)) # rest) = Some (cleandoc w text)"
| "get_docstring w body = None"

subsection \<open>Decorators\<close>

text \<open>\<^verbatim>\<open>isinstance(x, ast.Constant)\<close>, with the value.\<close>

fun constant_value :: "node \<Rightarrow> const option" where
  "constant_value (Constant c) = Some c"
| "constant_value n = None"

text \<open>\<^verbatim>\<open>keyword.arg == k and isinstance(keyword.value, ast.Constant)\<close>, with the value.\<close>

definition keyword_constant :: "string \<Rightarrow> string option \<times> node \<Rightarrow> const option" where
  "keyword_constant k kw = (if fst kw = Some k then constant_value (snd kw) else None)"

text \<open>The local variables of the loop over a method's decorators.\<close>

record tag_state =
  method_type :: "string option"
  read_only :: bool
  intent :: string
  expanded_intent :: string

definition initial_tags :: tag_state where
  "initial_tags =
     \<lparr>method_type = None, read_only = False, intent = '''', expanded_intent = ''''\<rparr>"

fun read_only_keywords :: "(string option \<times> node) list \<Rightarrow> bool \<Rightarrow> bool" where
  "read_only_keywords [] ro = ro"
| "read_only_keywords (kw # kws) ro =
     read_only_keywords kws
       (case keyword_constant ''read_only'' kw of Some c \<Rightarrow> py_bool c | None \<Rightarrow> ro)"

fun intent_keywords :: "(string option \<times> node) list \<Rightarrow> string \<times> string \<Rightarrow> string \<times> string" where
  "intent_keywords [] ie = ie"
| "intent_keywords (kw # kws) ie =
     intent_keywords kws
       (case keyword_constant ''intent'' kw of
          Some c \<Rightarrow> (py_str c, snd ie)
        | None \<Rightarrow>
            (case keyword_constant ''expanded_intent'' kw of
               Some c \<Rightarrow> (fst ie, py_str c)
             | None \<Rightarrow> ie))"

text \<open>\<^verbatim>\<open>len(decorator.args) >= 1 and isinstance(decorator.args[0], ast.Constant)\<close>, with the value.\<close>

fun first_arg_constant :: "node list \<Rightarrow> const option" where
  "first_arg_constant [] = None"
| "first_arg_constant (a # args) = constant_value a"

text \<open>
  One round of the loop over \<^verbatim>\<open>item.decorator_list\<close>. A \<^verbatim>\<open>Name\<close> is looked at only for the
  identifier \<^verbatim>\<open>primitive\<close>; a \<^verbatim>\<open>Call\<close> of a \<^verbatim>\<open>Name\<close> for \<^verbatim>\<open>primitive\<close> and \<^verbatim>\<open>decomposition\<close>.
\<close>

fun decorator_step :: "node \<Rightarrow> tag_state \<Rightarrow> tag_state" where
  "decorator_step (Name ident) s =
     (if ident = ''primitive'' then s\<lparr>method_type := Some ''primitive''\<rparr> else s)"
| "decorator_step (Call (Name ident) args keywords) s =
     (if ident = ''primitive'' then
        s\<lparr>method_type := Some ''primitive'',
          read_only := read_only_keywords keywords (read_only s)\<rparr>
      else if ident = ''decomposition'' then
        (let i = (case first_arg_constant args of Some c \<Rightarrow> py_str c | None \<Rightarrow> intent s);
             ie = intent_keywords keywords (i, expanded_intent s)
         in s\<lparr>method_type := Some ''decomposition'', intent := fst ie, expanded_intent := snd ie\<rparr>)
      else s)"
| "decorator_step d s = s"

definition decorator_tags :: "node list \<Rightarrow> tag_state" where
  "decorator_tags decorator_list = fold decorator_step decorator_list initial_tags"

text \<open>
  \<^verbatim>\<open>_extract_decorated_methods\<close>: the loop over the class body, with the list \<open>methods\<close> it
  appends to. Only an \<^verbatim>\<open>ast.FunctionDef\<close> is looked at, and it is appended when \<open>method_type\<close>
  is set (and true, that is, not the empty string).
\<close>

fun methods_loop ::
  "'p world \<Rightarrow> string list \<Rightarrow> node list \<Rightarrow> discovered_method list \<Rightarrow> discovered_method list"
where
  "methods_loop w source_lines [] methods = methods"
| "methods_loop w source_lines
     (FunctionDef name args body decorator_list returns type_params lineno end_lineno # items)
     methods =
     (let t = decorator_tags decorator_list
      in methods_loop w source_lines items
           (case method_type t of
              None \<Rightarrow> methods
            | Some mt \<Rightarrow>
                if mt = '''' then methods
                else methods @
                  [\<lparr>dm_name = name, dm_method_type = mt,
                    dm_docstring = (case get_docstring w body of None \<Rightarrow> '''' | Some d \<Rightarrow> d),
                    dm_signature = get_method_signature lineno source_lines,
                    dm_source = get_method_source lineno end_lineno source_lines,
                    dm_line_number = lineno,
                    dm_read_only = read_only t,
                    dm_intent = intent t,
                    dm_expanded_intent = expanded_intent t\<rparr>]))"
| "methods_loop w source_lines (item # items) methods = methods_loop w source_lines items methods"

fun class_body :: "node \<Rightarrow> node list" where
  "class_body (ClassDef name bases keywords body decorator_list type_params) = body"
| "class_body n = []"

definition extract_decorated_methods :: "'p world \<Rightarrow> node \<Rightarrow> string list \<Rightarrow> discovered_method list"
where
  "extract_decorated_methods w class_node source_lines =
     methods_loop w source_lines (class_body class_node) []"

subsection \<open>The manifest\<close>

text \<open>
  \<^verbatim>\<open>_extract_manifest_filename\<close> returns the explicit file name, \<open>None\<close> for the default name,
  and the empty string when the class has no \<^verbatim>\<open>load_manifest\<close> call. It returns at the first
  call of the plain name \<^verbatim>\<open>load_manifest\<close> that \<^verbatim>\<open>ast.walk\<close> yields.
\<close>

fun second_arg_constant :: "node list \<Rightarrow> const option" where
  "second_arg_constant (a # b # args) = constant_value b"
| "second_arg_constant args = None"

fun manifest_name_keyword :: "(string option \<times> node) list \<Rightarrow> string option" where
  "manifest_name_keyword [] = None"
| "manifest_name_keyword (kw # kws) =
     (case keyword_constant ''manifest_name'' kw of
        Some c \<Rightarrow> Some (py_str c)
      | None \<Rightarrow> manifest_name_keyword kws)"

fun load_manifest_call :: "node \<Rightarrow> (node list \<times> (string option \<times> node) list) option" where
  "load_manifest_call (Call (Name ident) args keywords) =
     (if ident = ''load_manifest'' then Some (args, keywords) else None)"
| "load_manifest_call n = None"

fun manifest_filename_loop :: "node list \<Rightarrow> string option" where
  "manifest_filename_loop [] = Some ''''"
| "manifest_filename_loop (item # items) =
     (case load_manifest_call item of
        None \<Rightarrow> manifest_filename_loop items
      | Some (args, keywords) \<Rightarrow>
          (case second_arg_constant args of
             Some c \<Rightarrow> Some (py_str c)
           | None \<Rightarrow> manifest_name_keyword keywords))"

definition extract_manifest_filename :: "node \<Rightarrow> string option" where
  "extract_manifest_filename class_node = manifest_filename_loop (walk class_node)"

definition empty_manifest :: manifest_metadata where
  "empty_manifest = \<lparr>mm_name = '''', mm_description = '''', mm_version = ''''\<rparr>"

text \<open>
  \<^verbatim>\<open>data.get(key, "")\<close> on the dictionary that \<^verbatim>\<open>json.load\<close> builds from an object (of a repeated
  member the last one stays).
\<close>

definition dict_get :: "(string \<times> json) list \<Rightarrow> string \<Rightarrow> json" where
  "dict_get members k = (case map_of (rev members) k of None \<Rightarrow> JString '''' | Some v \<Rightarrow> v)"

fun json_string :: "json \<Rightarrow> string option" where
  "json_string (JString s) = Some s"
| "json_string j = None"

text \<open>
  The body of the \<^verbatim>\<open>try\<close>, once the file is loaded: \<^verbatim>\<open>data.get\<close> exists on a dictionary only
  (\<^verbatim>\<open>AttributeError\<close> otherwise), and the fields of \<^verbatim>\<open>ManifestMetadata\<close> are validated as strings
  (\<^verbatim>\<open>ValidationError\<close> otherwise).
\<close>

fun manifest_of_json :: "json \<Rightarrow> py_error + manifest_metadata" where
  "manifest_of_json (JObject members) =
     (case (json_string (dict_get members ''name''),
            json_string (dict_get members ''description''),
            json_string (dict_get members ''version'')) of
        (Some n, Some d, Some v) \<Rightarrow> Inr \<lparr>mm_name = n, mm_description = d, mm_version = v\<rparr>
      | other \<Rightarrow> Inl ValidationError)"
| "manifest_of_json j = Inl AttributeError"

text \<open>\<^verbatim>\<open>_load_manifest_metadata\<close>, with its \<^verbatim>\<open>except (json.JSONDecodeError, OSError)\<close>.\<close>

definition manifest_path :: "'p world \<Rightarrow> 'p \<Rightarrow> string option \<Rightarrow> 'p" where
  "manifest_path w file_path manifest_name =
     path_join w (path_parent w file_path)
       (case manifest_name of
          None \<Rightarrow> path_stem w file_path @ ''.manifest.json''
        | Some n \<Rightarrow> n)"

definition load_manifest_metadata ::
  "'p world \<Rightarrow> 'p \<Rightarrow> string option \<Rightarrow> py_error + manifest_metadata"
where
  "load_manifest_metadata w file_path manifest_name =
     (let mp = manifest_path w file_path manifest_name
      in if \<not> path_exists w mp then Inr empty_manifest
         else
           (case (case json_load w mp of Inl e \<Rightarrow> Inl e | Inr data \<Rightarrow> manifest_of_json data) of
              Inl e \<Rightarrow> if e = JSONDecodeError \<or> e = OSError then Inr empty_manifest else Inl e
            | Inr m \<Rightarrow> Inr m))"

subsection \<open>Classes\<close>

definition valid_base_names :: "string set" where
  "valid_base_names = {''PlanExecute'', ''Planner''}"

text \<open>The loop over \<^verbatim>\<open>class_node.bases\<close>, which breaks at the first base that matches.\<close>

fun base_class_name :: "node list \<Rightarrow> string option" where
  "base_class_name [] = None"
| "base_class_name (Name ident # bases) =
     (if ident \<in> valid_base_names then Some ident else base_class_name bases)"
| "base_class_name (Attribute v attr # bases) =
     (if attr \<in> valid_base_names then Some attr else base_class_name bases)"
| "base_class_name (b # bases) = base_class_name bases"

text \<open>
  The loop over the keywords of a call whose function is an attribute \<^verbatim>\<open>__init__\<close>, on the
  variables \<open>(name, description, version)\<close>, and the loop over \<^verbatim>\<open>ast.walk(class_node)\<close>
  around it.
\<close>

fun init_keywords ::
  "(string option \<times> node) list \<Rightarrow> string \<times> string \<times> string \<Rightarrow> string \<times> string \<times> string"
where
  "init_keywords [] ndv = ndv"
| "init_keywords (kw # kws) (n, d, v) =
     init_keywords kws
       (case keyword_constant ''name'' kw of
          Some c \<Rightarrow> (py_str c, d, v)
        | None \<Rightarrow>
            (case keyword_constant ''description'' kw of
               Some c \<Rightarrow> (n, py_str c, v)
             | None \<Rightarrow>
                 (case keyword_constant ''version'' kw of
                    Some c \<Rightarrow> (n, d, py_str c)
                  | None \<Rightarrow> (n, d, v))))"

fun init_call_step :: "node \<Rightarrow> string \<times> string \<times> string \<Rightarrow> string \<times> string \<times> string" where
  "init_call_step (Call (Attribute v attr) args keywords) ndv =
     (if attr = ''__init__'' then init_keywords keywords ndv else ndv)"
| "init_call_step item ndv = ndv"

definition inline_metadata :: "node \<Rightarrow> string \<Rightarrow> string \<times> string \<times> string" where
  "inline_metadata class_node class_name =
     fold init_call_step (walk class_node) (class_name, '''', '''')"

text \<open>The three assignments guarded by \<^verbatim>\<open>if manifest_meta.name:\<close> and its two siblings.\<close>

definition merge_manifest ::
  "manifest_metadata \<Rightarrow> string \<times> string \<times> string \<Rightarrow> string \<times> string \<times> string"
where
  "merge_manifest m ndv =
     (case ndv of (n, d, v) \<Rightarrow>
        (if mm_name m \<noteq> '''' then mm_name m else n,
         if mm_description m \<noteq> '''' then mm_description m else d,
         if mm_version m \<noteq> '''' then mm_version m else v))"

text \<open>
  \<^verbatim>\<open>if not description and ast.get_docstring(class_node)\<close>: the first line of the class
  docstring, stripped.
\<close>

definition docstring_description :: "'p world \<Rightarrow> node list \<Rightarrow> string \<Rightarrow> string" where
  "docstring_description w body description =
     (if description = '''' then
        (case get_docstring w body of
           None \<Rightarrow> description
         | Some docstring \<Rightarrow>
             if docstring = '''' then description else strip (first_line docstring))
      else description)"

text \<open>
  The body of the loop over \<^verbatim>\<open>ast.walk(tree)\<close> of \<^verbatim>\<open>_extract_agent_info_from_ast\<close> for one
  node: \<open>Inr None\<close> where the loop continues without an agent, \<open>Inl\<close> where an exception
  leaves the function.
\<close>

fun class_agent ::
  "'p world \<Rightarrow> 'p \<Rightarrow> string list \<Rightarrow> node \<Rightarrow> py_error + 'p discovered_agent option"
where
  "class_agent w file_path source_lines
     (ClassDef class_name bases keywords body decorator_list type_params) =
     (let class_node = ClassDef class_name bases keywords body decorator_list type_params
      in case base_class_name bases of
           None \<Rightarrow> Inr None
         | Some base \<Rightarrow>
             if base = '''' then Inr None
             else
               (let ndv = inline_metadata class_node class_name;
                    manifest_filename = extract_manifest_filename class_node
                in case (if manifest_filename \<noteq> Some ''''
                         then (case load_manifest_metadata w file_path manifest_filename of
                                 Inl e \<Rightarrow> Inl e
                               | Inr m \<Rightarrow> Inr (merge_manifest m ndv))
                         else Inr ndv) of
                     Inl e \<Rightarrow> Inl e
                   | Inr (name, description, version) \<Rightarrow>
                       Inr (Some
                         \<lparr>da_name = name, da_class_name = class_name, da_file_path = file_path,
                          da_description = docstring_description w body description,
                          da_version = version, da_base_class = base,
                          da_methods = extract_decorated_methods w class_node source_lines\<rparr>)))"
| "class_agent w file_path source_lines item = Inr None"

fun agents_loop ::
  "'p world \<Rightarrow> 'p \<Rightarrow> string list \<Rightarrow> node list \<Rightarrow> 'p discovered_agent list
     \<Rightarrow> py_error + 'p discovered_agent list"
where
  "agents_loop w file_path source_lines [] agents = Inr agents"
| "agents_loop w file_path source_lines (item # items) agents =
     (case class_agent w file_path source_lines item of
        Inl e \<Rightarrow> Inl e
      | Inr None \<Rightarrow> agents_loop w file_path source_lines items agents
      | Inr (Some a) \<Rightarrow> agents_loop w file_path source_lines items (agents @ [a]))"

text \<open>\<^verbatim>\<open>_extract_agent_info_from_ast\<close>, with its \<^verbatim>\<open>except (SyntaxError, OSError)\<close>.\<close>

definition extract_agent_info_from_ast :: "'p world \<Rightarrow> 'p \<Rightarrow> py_error + 'p discovered_agent list"
where
  "extract_agent_info_from_ast w file_path =
     (case read_text w file_path of
        Inl e \<Rightarrow> if e = SyntaxError \<or> e = OSError then Inr [] else Inl e
      | Inr source \<Rightarrow>
          (case ast_parse w source of
             Inl e \<Rightarrow> if e = SyntaxError \<or> e = OSError then Inr [] else Inl e
           | Inr tree \<Rightarrow> agents_loop w file_path (splitlines source) (walk tree) []))"

subsection \<open>Scanning\<close>

definition scan_file_for_agents :: "'p world \<Rightarrow> 'p \<Rightarrow> py_error + 'p discovered_agent list" where
  "scan_file_for_agents w file_path =
     (if \<not> path_exists w file_path \<or> \<not> path_is_file w file_path then Inr []
      else extract_agent_info_from_ast w file_path)"

text \<open>
  The loop of \<^verbatim>\<open>scan_directory_for_agents\<close> over the files that \<^verbatim>\<open>rglob\<close> yields, with the
  list \<open>agents\<close> it extends.
\<close>

fun directory_loop ::
  "'p world \<Rightarrow> 'p list \<Rightarrow> 'p discovered_agent list \<Rightarrow> py_error + 'p discovered_agent list"
where
  "directory_loop w [] agents = Inr agents"
| "directory_loop w (py_file # files) agents =
     (if ''__pycache__'' \<in> set (path_parts w py_file) then directory_loop w files agents
      else
        (case extract_agent_info_from_ast w py_file of
           Inl e \<Rightarrow> Inl e
         | Inr discovered \<Rightarrow> directory_loop w files (agents @ discovered)))"

definition scan_directory_for_agents :: "'p world \<Rightarrow> 'p \<Rightarrow> py_error + 'p discovered_agent list"
where
  "scan_directory_for_agents w directory =
     (if \<not> path_exists w directory \<or> \<not> path_is_dir w directory then Inr []
      else directory_loop w (rglob_py w directory) [])"

subsection \<open>Notions used to state the properties\<close>

text \<open>
  The kind of capability tag that one decorator is recognised as: the bare name \<^verbatim>\<open>primitive\<close>,
  a call of the name \<^verbatim>\<open>primitive\<close>, a call of the name \<^verbatim>\<open>decomposition\<close>.
\<close>

fun decorator_kind :: "node \<Rightarrow> string option" where
  "decorator_kind (Name ident) = (if ident = ''primitive'' then Some ''primitive'' else None)"
| "decorator_kind (Call (Name ident) args keywords) =
     (if ident = ''primitive'' then Some ''primitive''
      else if ident = ''decomposition'' then Some ''decomposition''
      else None)"
| "decorator_kind d = None"

text \<open>The last value that is present in a list of optional values.\<close>

fun last_some :: "'a option list \<Rightarrow> 'a option" where
  "last_some [] = None"
| "last_some (x # xs) = (case last_some xs of None \<Rightarrow> x | Some y \<Rightarrow> Some y)"

text \<open>
  The value that the arguments of one decorator give to \<^verbatim>\<open>read_only\<close>, \<^verbatim>\<open>intent\<close> and
  \<^verbatim>\<open>expanded_intent\<close>, if they give one.
\<close>

fun carried_read_only :: "node \<Rightarrow> bool option" where
  "carried_read_only (Call (Name ident) args keywords) =
     (if ident = ''primitive''
      then map_option py_bool (last_some (map (keyword_constant ''read_only'') keywords))
      else None)"
| "carried_read_only d = None"

fun carried_intent :: "node \<Rightarrow> string option" where
  "carried_intent (Call (Name ident) args keywords) =
     (if ident = ''decomposition''
      then map_option py_str
             (last_some (first_arg_constant args # map (keyword_constant ''intent'') keywords))
      else None)"
| "carried_intent d = None"

fun carried_expanded_intent :: "node \<Rightarrow> string option" where
  "carried_expanded_intent (Call (Name ident) args keywords) =
     (if ident = ''decomposition''
      then map_option py_str (last_some (map (keyword_constant ''expanded_intent'') keywords))
      else None)"
| "carried_expanded_intent d = None"

text \<open>
  A statement of a class body that the scanner lists as a method: an \<^verbatim>\<open>ast.FunctionDef\<close> with
  a recognised decorator. \<open>function_name\<close> and \<open>function_lineno\<close> read its name and line,
  \<open>function_kind\<close> is the kind of its last recognised decorator.
\<close>

fun is_tagged :: "node \<Rightarrow> bool" where
  "is_tagged (FunctionDef name args body decorator_list returns type_params lineno end_lineno) =
     (\<exists>d \<in> set decorator_list. decorator_kind d \<noteq> None)"
| "is_tagged item = False"

fun function_name :: "node \<Rightarrow> string" where
  "function_name (FunctionDef name args body decorator_list returns type_params lineno end_lineno) =
     name"
| "function_name item = ''''"

fun function_lineno :: "node \<Rightarrow> nat" where
  "function_lineno (FunctionDef name args body decorator_list returns type_params lineno end_lineno) =
     lineno"
| "function_lineno item = 0"

fun function_kind :: "node \<Rightarrow> string" where
  "function_kind (FunctionDef name args body decorator_list returns type_params lineno end_lineno) =
     (case last_some (map decorator_kind decorator_list) of None \<Rightarrow> '''' | Some k \<Rightarrow> k)"
| "function_kind item = ''''"



text \<open>The number of line breaks of a text: a text of \<open>n\<close> lines has \<open>n - 1\<close> of them.\<close>

definition line_breaks :: "string \<Rightarrow> nat" where
  "line_breaks s = length (filter (\<lambda>c. c = CHR 0x0A) s)"

text \<open>
  A class declaration that the scanner takes for an agent: one of its bases matches. The
  nodes of a tree in document order are the tree in pre-order (a statement, then the
  statements nested in it, then the statements after it); \<open>nodes_at k\<close> are the nodes at depth
  \<open>k\<close> below a node, from left to right.
\<close>

fun is_candidate :: "node \<Rightarrow> bool" where
  "is_candidate (ClassDef name bases keywords body decorator_list type_params) =
     (base_class_name bases \<noteq> None)"
| "is_candidate n = False"

fun class_name_of :: "node \<Rightarrow> string" where
  "class_name_of (ClassDef name bases keywords body decorator_list type_params) = name"
| "class_name_of n = ''''"

function document_order :: "node \<Rightarrow> node list" where
  "document_order n = n # concat (map document_order (iter_child_nodes n))"
  by pat_completeness auto
termination
proof (relation "measure size")
  show "wf (measure size)" by simp
next
  fix n c :: node
  assume c: "c \<in> set (iter_child_nodes n)"
  have node_size: "sum_list (map (\<lambda>n. Suc (size n)) xs) = size_list size xs" for xs :: "node list"
    by (induction xs) auto
  have kw_size: "sum_list (map ((\<lambda>n. Suc (size n)) \<circ> (\<lambda>(a, v). Keyword a v)) kws)
      = size_list (size_prod (\<lambda>_. 0) size) kws" for kws :: "(string option \<times> node) list"
    by (induction kws) auto
  have children: "sum_list (map (\<lambda>n. Suc (size n)) (iter_child_nodes n)) \<le> size n"
  proof (cases n)
    case (FunctionDef name args body decs returns tps lineno end_lineno)
    then show ?thesis by (cases returns) (simp_all add: node_size)
  qed (simp_all add: node_size kw_size)
  have "Suc (size c) \<in> set (map (\<lambda>n. Suc (size n)) (iter_child_nodes n))"
    using c by simp
  then have "Suc (size c) \<le> sum_list (map (\<lambda>n. Suc (size n)) (iter_child_nodes n))"
    by (simp add: member_le_sum_list)
  with children have "size c < size n" by simp
  then show "(c, n) \<in> measure size" by simp
qed

declare document_order.simps [simp del]

primrec nodes_at :: "nat \<Rightarrow> node \<Rightarrow> node list" where
  "nodes_at 0 n = [n]"
| "nodes_at (Suc k) n = concat (map (nodes_at k) (iter_child_nodes n))"

subsection \<open>A small world for the examples\<close>

text \<open>
  A file system given by its source files (each with what reading it returns), what the
  parser returns on each source text, and its manifest files (each with what loading it
  returns). A path is the list of its parts; a directory exists when a file lies below it.
  \<open>cleandoc\<close> leaves the text as it is, which is what \<^verbatim>\<open>inspect.cleandoc\<close> does on a one-line
  docstring without surrounding blanks.
\<close>

definition file_world ::
  "(string list \<times> (py_error + string)) list \<Rightarrow> (string \<times> (py_error + node)) list
     \<Rightarrow> (string list \<times> (py_error + json)) list \<Rightarrow> string list world"
where
  "file_world sources trees manifests =
     \<lparr>cleandoc = (\<lambda>text. text),
      read_text = (\<lambda>p. case map_of sources p of None \<Rightarrow> Inl OSError | Some r \<Rightarrow> r),
      ast_parse = (\<lambda>source. case map_of trees source of None \<Rightarrow> Inl SyntaxError | Some r \<Rightarrow> r),
      json_load = (\<lambda>p. case map_of manifests p of None \<Rightarrow> Inl OSError | Some r \<Rightarrow> r),
      path_stem = (\<lambda>p. if p = [] then ''''
                        else if CHR ''.'' \<in> set (last p)
                        then rev (drop 1 (dropWhile (\<lambda>c. c \<noteq> CHR ''.'') (rev (last p))))
                        else last p),
      path_parent = butlast,
      path_join = (\<lambda>d n. d @ [n]),
      path_parts = (\<lambda>p. p),
      path_exists = (\<lambda>p. \<exists>q \<in> set (map fst sources @ map fst manifests). take (length p) q = p),
      path_is_file = (\<lambda>p. p \<in> set (map fst sources @ map fst manifests)),
      path_is_dir = (\<lambda>p. \<exists>q \<in> set (map fst sources @ map fst manifests).
                        take (length p) q = p \<and> length p < length q),
      rglob_py = (\<lambda>d. filter (\<lambda>q. take (length d) q = d \<and> length d < length q)
                        (map fst sources))\<rparr>"

subsection \<open>Example inputs\<close>

text \<open>
  The world without any file, and the syntax tree of
  \<^verbatim>\<open>
  class Calc(PlanExecute):

      @primitive(read_only=True)
      def add(self, a, b):
          return a + b
      @decomposition("sum three")
      def plan(self, a, b, c):
          return self.add(self.add(a, b), c)
      def helper(self):
          pass

      @primitive
      def store(self, x):
          self.x = x
  \<close>
  The node \<^verbatim>\<open>arguments\<close> and the statements of the bodies are \<open>Other\<close> nodes, left empty.
\<close>

definition no_files :: "string list world" where
  "no_files = file_world [] [] []"

definition calc_class :: node where
  "calc_class =
     ClassDef ''Calc'' [Name ''PlanExecute''] []
       [FunctionDef ''add'' (Other []) []
          [Call (Name ''primitive'') [] [(Some ''read_only'', Constant (CBool True))]]
          None [] 4 (Some 5),
        FunctionDef ''plan'' (Other []) []
          [Call (Name ''decomposition'') [Constant (CStr ''sum three'')] []]
          None [] 7 (Some 8),
        FunctionDef ''helper'' (Other []) [] [] None [] 9 (Some 10),
        FunctionDef ''store'' (Other []) [] [Name ''primitive''] None [] 13 (Some 14)]
       [] []"

text \<open>
  A class that names itself in the call of the initializer of its base class and loads its
  manifest under the default name:
  \<^verbatim>\<open>
  class Calc(PlanExecute):
      def __init__(self):
          super().__init__(name="Inline", description="A")
          load_manifest(__file__)
  \<close>
  and three worlds that hold, beside \<^verbatim>\<open>agents/calc.py\<close>, a manifest
  \<^verbatim>\<open>agents/calc.manifest.json\<close>: one with \<^verbatim>\<open>{"description": "B", "version": "2.0"}\<close>, one whose
  text is not \<^verbatim>\<open>JSON\<close>, and one whose bytes are not valid UTF-8, so that reading it raises
  \<^verbatim>\<open>UnicodeDecodeError\<close>.
\<close>

definition manifest_class :: node where
  "manifest_class =
     ClassDef ''Calc'' [Name ''PlanExecute''] []
       [FunctionDef ''__init__'' (Other [])
          [Expr (Call (Attribute (Call (Name ''super'') [] []) ''__init__'') []
             [(Some ''name'', Constant (CStr ''Inline'')),
              (Some ''description'', Constant (CStr ''A''))]),
           Expr (Call (Name ''load_manifest'') [Name ''__file__''] [])]
          [] None [] 2 (Some 4)]
       [] []"

definition calc_with_manifest :: "(py_error + json) \<Rightarrow> string list world" where
  "calc_with_manifest loaded =
     file_world
       [([''agents'', ''calc.py''], Inr ''class Calc(PlanExecute): ...'')]
       [(''class Calc(PlanExecute): ...'', Inr (Module [manifest_class]))]
       [([''agents'', ''calc.manifest.json''], loaded)]"

definition manifest_world :: "string list world" where
  "manifest_world =
     calc_with_manifest
       (Inr (JObject [(''description'', JString ''B''), (''version'', JString ''2.0'')]))"

definition malformed_manifest_world :: "string list world" where
  "malformed_manifest_world = calc_with_manifest (Inl JSONDecodeError)"

definition undecodable_manifest_world :: "string list world" where
  "undecodable_manifest_world = calc_with_manifest (Inl UnicodeDecodeError)"

text \<open>
  A directory \<^verbatim>\<open>agents\<close> with three source files: \<^verbatim>\<open>broken.py\<close>, which the parser rejects with
  a \<^verbatim>\<open>SyntaxError\<close>, \<^verbatim>\<open>calc.py\<close> with the class \<open>calc_class\<close>, and a third file, \<^verbatim>\<open>legacy.py\<close>,
  given by what reading it returns.
\<close>

definition agents_directory :: "(py_error + string) \<Rightarrow> string list world" where
  "agents_directory legacy =
     file_world
       [([''agents'', ''broken.py''], Inr ''def broken(:''),
        ([''agents'', ''calc.py''], Inr ''class Calc(PlanExecute): ...''),
        ([''agents'', ''legacy.py''], legacy)]
       [(''def broken(:'', Inl SyntaxError),
        (''class Calc(PlanExecute): ...'', Inr (Module [calc_class]))]
       []"

text \<open>
  The syntax tree of
  \<^verbatim>\<open>
  class Outer(PlanExecute):
      class Inner(Planner):
          pass
  class Last(PlanExecute):
      pass
  \<close>
  and a world with the file \<^verbatim>\<open>agents/nested.py\<close> that holds it.
\<close>

definition nested_module :: node where
  "nested_module =
     Module
       [ClassDef ''Outer'' [Name ''PlanExecute''] []
          [ClassDef ''Inner'' [Name ''Planner''] [] [Other []] [] []] [] [],
        ClassDef ''Last'' [Name ''PlanExecute''] [] [Other []] [] []]"

definition nested_world :: "string list world" where
  "nested_world =
     file_world
       [([''agents'', ''nested.py''], Inr ''class Outer(PlanExecute): ...'')]
       [(''class Outer(PlanExecute): ...'', Inr nested_module)]
       []"

section \<open>Properties\<close>

subsection \<open>The loop over the decorators of a method\<close>

text \<open>
  A loop that assigns a variable in some rounds and leaves it alone in the others ends with
  the last value assigned, or with the initial one.
\<close>

lemma fold_last_some:
  assumes "\<And>d s. f (step d s) = (case g d of None \<Rightarrow> f s | Some v \<Rightarrow> v)"
  shows "f (fold step ds s) = (case last_some (map g ds) of None \<Rightarrow> f s | Some v \<Rightarrow> v)"
proof (induction ds arbitrary: s)
  case Nil
  then show ?case by simp
next
  case (Cons d ds)
  show ?case
    by (simp add: Cons.IH assms split: option.splits)
qed

lemma last_some_append:
  "last_some (xs @ ys) = (case last_some ys of None \<Rightarrow> last_some xs | Some y \<Rightarrow> Some y)"
  by (induction xs) (auto split: option.splits)

lemma last_some_None: "last_some xs = None \<longleftrightarrow> (\<forall>x \<in> set xs. x = None)"
  by (induction xs) (auto split: option.splits)

lemma last_some_mem: "last_some xs = Some y \<Longrightarrow> Some y \<in> set xs"
  by (induction xs arbitrary: y) (auto split: option.splits)

lemma read_only_keywords_last:
  "read_only_keywords kws ro =
     (case last_some (map (keyword_constant ''read_only'') kws) of
        None \<Rightarrow> ro | Some c \<Rightarrow> py_bool c)"
  by (induction kws arbitrary: ro) (auto split: option.splits)

lemma intent_keywords_last:
  "intent_keywords kws ie =
     (case last_some (map (keyword_constant ''intent'') kws) of
        None \<Rightarrow> fst ie | Some c \<Rightarrow> py_str c,
      case last_some (map (keyword_constant ''expanded_intent'') kws) of
        None \<Rightarrow> snd ie | Some c \<Rightarrow> py_str c)"
proof (induction kws arbitrary: ie)
  case Nil
  then show ?case by simp
next
  case (Cons kw kws)
  have one_name: "keyword_constant ''expanded_intent'' kw = None"
    if "keyword_constant ''intent'' kw = Some c" for c
    using that by (auto simp: keyword_constant_def split: if_splits)
  show ?case
    by (cases "keyword_constant ''intent'' kw"; cases "keyword_constant ''expanded_intent'' kw")
       (auto simp: Cons.IH one_name split: option.splits)
qed

lemma step_method_type:
  "method_type (decorator_step d s) =
     (case decorator_kind d of None \<Rightarrow> method_type s | Some k \<Rightarrow> Some k)"
  by (induction d s rule: decorator_step.induct) (simp_all add: Let_def)

lemma step_read_only:
  "read_only (decorator_step d s) =
     (case carried_read_only d of None \<Rightarrow> read_only s | Some b \<Rightarrow> b)"
  by (induction d s rule: decorator_step.induct)
     (simp_all add: Let_def read_only_keywords_last split: option.splits)

lemma step_intent:
  "intent (decorator_step d s) =
     (case carried_intent d of None \<Rightarrow> intent s | Some b \<Rightarrow> b)"
  by (induction d s rule: decorator_step.induct)
     (simp_all add: Let_def intent_keywords_last split: option.splits)

lemma step_expanded_intent:
  "expanded_intent (decorator_step d s) =
     (case carried_expanded_intent d of None \<Rightarrow> expanded_intent s | Some b \<Rightarrow> b)"
  by (induction d s rule: decorator_step.induct)
     (simp_all add: Let_def intent_keywords_last split: option.splits)

lemma tags_method_type:
  "method_type (decorator_tags ds) = last_some (map decorator_kind ds)"
proof -
  have "method_type (fold decorator_step ds initial_tags) =
     (case last_some (map (\<lambda>d. map_option Some (decorator_kind d)) ds) of
        None \<Rightarrow> method_type initial_tags | Some v \<Rightarrow> v)"
    by (rule fold_last_some) (simp add: step_method_type split: option.splits)
  moreover have "last_some (map (\<lambda>d. map_option Some (decorator_kind d)) ds) =
      map_option Some (last_some (map decorator_kind ds))"
    by (induction ds) (auto split: option.splits)
  ultimately show ?thesis
    by (simp add: decorator_tags_def initial_tags_def split: option.splits)
qed

lemma tags_read_only:
  "read_only (decorator_tags ds) =
     (case last_some (map carried_read_only ds) of None \<Rightarrow> False | Some b \<Rightarrow> b)"
  using fold_last_some [of read_only decorator_step carried_read_only ds initial_tags]
  by (simp add: step_read_only decorator_tags_def initial_tags_def split: option.splits)

lemma tags_intent:
  "intent (decorator_tags ds) =
     (case last_some (map carried_intent ds) of None \<Rightarrow> '''' | Some b \<Rightarrow> b)"
  using fold_last_some [of intent decorator_step carried_intent ds initial_tags]
  by (simp add: step_intent decorator_tags_def initial_tags_def split: option.splits)

lemma tags_expanded_intent:
  "expanded_intent (decorator_tags ds) =
     (case last_some (map carried_expanded_intent ds) of None \<Rightarrow> '''' | Some b \<Rightarrow> b)"
  using fold_last_some [of expanded_intent decorator_step carried_expanded_intent ds initial_tags]
  by (simp add: step_expanded_intent decorator_tags_def initial_tags_def split: option.splits)

lemma kind_nonempty: "decorator_kind d = Some k \<Longrightarrow> k \<noteq> ''''"
  by (induction d rule: decorator_kind.induct) (auto split: if_splits)

lemma unrecognised_carries_nothing:
  assumes "\<forall>d \<in> set ds. decorator_kind d = None"
  shows "last_some (map carried_read_only ds) = None"
    and "last_some (map carried_intent ds) = None"
    and "last_some (map carried_expanded_intent ds) = None"
proof -
  have "carried_read_only d = None \<and> carried_intent d = None \<and> carried_expanded_intent d = None"
    if "decorator_kind d = None" for d
    using that by (induction d rule: decorator_kind.induct) (auto split: if_splits)
  with assms show "last_some (map carried_read_only ds) = None"
    and "last_some (map carried_intent ds) = None"
    and "last_some (map carried_expanded_intent ds) = None"
    by (simp_all add: last_some_None)
qed

lemma tagged_iff:
  "(\<exists>d \<in> set ds. decorator_kind d \<noteq> None) \<longleftrightarrow>
     (\<exists>mt. method_type (decorator_tags ds) = Some mt \<and> mt \<noteq> '''')"
proof -
  have "mt \<noteq> ''''" if "last_some (map decorator_kind ds) = Some mt" for mt
  proof -
    from that have "Some mt \<in> set (map decorator_kind ds)" by (rule last_some_mem)
    then obtain d where "decorator_kind d = Some mt" by auto
    then show ?thesis by (rule kind_nonempty)
  qed
  moreover have "(\<exists>d \<in> set ds. decorator_kind d \<noteq> None)
      \<longleftrightarrow> last_some (map decorator_kind ds) \<noteq> None"
    by (simp add: last_some_None)
  ultimately show ?thesis
    by (auto simp: tags_method_type)
qed

subsection \<open>The loop over the class body\<close>

lemma methods_loop_order:
  "map (\<lambda>m. (dm_name m, dm_method_type m, dm_line_number m))
       (methods_loop w source_lines items methods) =
     map (\<lambda>m. (dm_name m, dm_method_type m, dm_line_number m)) methods @
     map (\<lambda>item. (function_name item, function_kind item, function_lineno item))
       (filter is_tagged items)"
proof (induction w source_lines items methods rule: methods_loop.induct)
  case (1 w source_lines methods)
  then show ?case by simp
next
  case (2 w source_lines name args body decorator_list returns type_params lineno end_lineno
      items methods)
  show ?case
  proof (cases "\<exists>d \<in> set decorator_list. decorator_kind d \<noteq> None")
    case True
    then obtain mt where "method_type (decorator_tags decorator_list) = Some mt" "mt \<noteq> ''''"
      using tagged_iff [of decorator_list] by blast
    moreover from this have "last_some (map decorator_kind decorator_list) = Some mt"
      by (simp add: tags_method_type)
    ultimately show ?thesis using True 2 by (simp add: Let_def)
  next
    case False
    then have "\<not> (\<exists>mt. method_type (decorator_tags decorator_list) = Some mt \<and> mt \<noteq> '''')"
      using tagged_iff [of decorator_list] by blast
    with False 2 show ?thesis by (auto simp: Let_def split: option.splits)
  qed
qed simp_all

lemma class_agent_methods:
  assumes "class_agent w file_path source_lines class_node = Inr (Some a)"
  shows "da_methods a = extract_decorated_methods w class_node source_lines"
  using assms
  by (cases class_node)
     (auto simp: Let_def split: option.splits if_splits sum.splits prod.splits)

lemma single_method:
  assumes "method_type (decorator_tags ds) = Some k" and "k \<noteq> ''''"
  shows "methods_loop w source_lines [FunctionDef name args body ds returns tps lineno e] [] =
     [\<lparr>dm_name = name, dm_method_type = k,
       dm_docstring = (case get_docstring w body of None \<Rightarrow> '''' | Some d \<Rightarrow> d),
       dm_signature = get_method_signature lineno source_lines,
       dm_source = get_method_source lineno e source_lines,
       dm_line_number = lineno,
       dm_read_only = read_only (decorator_tags ds),
       dm_intent = intent (decorator_tags ds),
       dm_expanded_intent = expanded_intent (decorator_tags ds)\<rparr>]"
  using assms by (simp add: Let_def)

lemma untagged_method:
  assumes "\<forall>d \<in> set ds. decorator_kind d = None"
  shows "methods_loop w source_lines [FunctionDef name args body ds returns tps lineno e] [] = []"
proof -
  have "method_type (decorator_tags ds) = None"
    using assms by (simp add: tags_method_type last_some_None)
  then show ?thesis by (simp add: Let_def)
qed

lemma tagged_method:
  assumes "decorator_list = before @ d # after"
    and "decorator_kind d = Some k"
    and "\<forall>p \<in> set after. decorator_kind p = None"
  shows "methods_loop w source_lines
           [FunctionDef name args body decorator_list returns type_params lineno end_lineno] []
     = [\<lparr>dm_name = name, dm_method_type = k,
         dm_docstring = (case get_docstring w body of None \<Rightarrow> '''' | Some d \<Rightarrow> d),
         dm_signature = get_method_signature lineno source_lines,
         dm_source = get_method_source lineno end_lineno source_lines,
         dm_line_number = lineno,
         dm_read_only =
           (case last_some (map carried_read_only decorator_list) of
              None \<Rightarrow> False | Some b \<Rightarrow> b),
         dm_intent =
           (case last_some (map carried_intent decorator_list) of None \<Rightarrow> '''' | Some s \<Rightarrow> s),
         dm_expanded_intent =
           (case last_some (map carried_expanded_intent decorator_list) of
              None \<Rightarrow> '''' | Some s \<Rightarrow> s)\<rparr>]"
proof -
  have "last_some (map decorator_kind after) = None"
    using assms(3) by (simp add: last_some_None)
  then have mt: "method_type (decorator_tags decorator_list) = Some k"
    using assms(1,2) by (simp add: tags_method_type last_some_append)
  have "k \<noteq> ''''" using assms(2) by (rule kind_nonempty)
  with mt show ?thesis
    by (simp add: single_method tags_read_only tags_intent tags_expanded_intent)
qed

lemma walk_unfold: "walk n = n # walk_queue (iter_child_nodes n)"
  by (simp add: walk_def)

subsection \<open>Order of the methods\<close>

text \<open>
  Claim C6. For every candidate class, the methods of its \<^verbatim>\<open>DiscoveredAgent\<close> are the tagged
  methods of the class body in their declaration order, whatever their kinds: the names,
  kinds and line numbers of the methods listed are those of the function definitions of the
  body that carry a recognised decorator, in the order of the body.
\<close>

theorem methods_in_declaration_order:
  assumes "class_agent w file_path source_lines class_node = Inr (Some a)"
  shows "map (\<lambda>m. (dm_name m, dm_method_type m, dm_line_number m)) (da_methods a) =
     map (\<lambda>item. (function_name item, function_kind item, function_lineno item))
       (filter is_tagged (class_body class_node))"
  by (simp add: class_agent_methods [OF assms] extract_decorated_methods_def methods_loop_order)

text \<open>
  In the class \<open>calc_class\<close>, \<^verbatim>\<open>add\<close> (primitive), \<^verbatim>\<open>plan\<close> (decomposition) and \<^verbatim>\<open>store\<close>
  (primitive) are listed in this order.
\<close>

theorem methods_in_declaration_order_witness:
  "\<exists>a. class_agent no_files [''agents'', ''calc.py''] [] calc_class = Inr (Some a)
     \<and> map (\<lambda>m. (dm_name m, dm_method_type m, dm_line_number m)) (da_methods a) =
         [(''add'', ''primitive'', 4), (''plan'', ''decomposition'', 7),
          (''store'', ''primitive'', 13)]"
proof -
  have "\<exists>a. class_agent no_files [''agents'', ''calc.py''] [] calc_class = Inr (Some a)"
    by (simp add: calc_class_def no_files_def file_world_def Let_def valid_base_names_def
        inline_metadata_def extract_manifest_filename_def walk_unfold)
  then obtain a
    where a: "class_agent no_files [''agents'', ''calc.py''] [] calc_class = Inr (Some a)"
    by blast
  have "map (\<lambda>m. (dm_name m, dm_method_type m, dm_line_number m)) (da_methods a) =
      [(''add'', ''primitive'', 4), (''plan'', ''decomposition'', 7),
       (''store'', ''primitive'', 13)]"
    using methods_in_declaration_order [OF a]
    by (simp add: calc_class_def keyword_constant_def)
  with a show ?thesis by (intro exI [of _ a] conjI)
qed

subsection \<open>Several capability decorators on one method\<close>



subsection \<open>The read-only flag of a primitive\<close>

text \<open>
  Claim C5, as stated, fails: \<^verbatim>\<open>@primitive(read_only=1)\<close> carries no argument named
  \<^verbatim>\<open>read_only\<close> with a literal boolean value, and the method is read-only all the same,
  since the scanner takes the truth value of any literal constant.
\<close>

theorem read_only_of_integer_literal_counterexample:
  "map dm_read_only
     (extract_decorated_methods no_files
        (ClassDef ''Store'' [Name ''PlanExecute''] []
           [FunctionDef ''get'' (Other []) []
              [Call (Name ''primitive'') [] [(Some ''read_only'', Constant (CInt 1))]]
              None [] 3 (Some 4)]
           [] [])
        []) = [True]"
  by (simp add: extract_decorated_methods_def decorator_tags_def initial_tags_def Let_def
      keyword_constant_def)

text \<open>
  Claim C5, amended. For a method whose only recognised decorator is a \<^verbatim>\<open>primitive\<close> tag:
  if the tag is a call with a keyword argument named \<^verbatim>\<open>read_only\<close> whose value is a literal
  constant (the last such keyword, of which the parser admits one), \<open>read_only\<close> is the truth
  value of that constant, hence the literal itself when it is a boolean; if the tag is bare,
  or has no keyword argument named \<^verbatim>\<open>read_only\<close> with a literal constant value,
  \<open>read_only\<close> is false. In each case the method is listed as a primitive.
\<close>

theorem primitive_read_only_truth_value:
  assumes "decorator_list = before @ tag # after"
    and "\<forall>d \<in> set (before @ after). decorator_kind d = None"
    and "tag = Name ''primitive'' \<and> ro = False
       \<or> tag = Call (Name ''primitive'') args keywords
           \<and> (\<forall>kw \<in> set keywords. keyword_constant ''read_only'' kw = None) \<and> ro = False
       \<or> tag = Call (Name ''primitive'') args (k1 @ (Some ''read_only'', Constant c) # k2)
           \<and> (\<forall>kw \<in> set k2. keyword_constant ''read_only'' kw = None) \<and> ro = py_bool c"
  shows "\<exists>m. methods_loop w source_lines
                [FunctionDef name a body decorator_list returns type_params lineno end_lineno] []
              = [m]
     \<and> dm_method_type m = ''primitive'' \<and> dm_read_only m = ro"
proof -
  have kind: "decorator_kind tag = Some ''primitive''"
    using assms(3) by auto
  have none: "\<forall>p \<in> set after. decorator_kind p = None"
    using assms(2) by simp
  have here: "keyword_constant ''read_only'' (Some ''read_only'', Constant c) = Some c"
    by (simp add: keyword_constant_def)
  have k2: "last_some (map (keyword_constant ''read_only'') k2) = None"
    if "\<forall>kw \<in> set k2. keyword_constant ''read_only'' kw = None"
    using that by (simp add: last_some_None)
  have kws: "last_some (map (keyword_constant ''read_only'') keywords) = None"
    if "\<forall>kw \<in> set keywords. keyword_constant ''read_only'' kw = None"
    using that by (simp add: last_some_None)
  have tagv: "carried_read_only tag = None \<and> \<not> ro \<or> carried_read_only tag = Some ro"
    using assms(3) k2 kws
    by (auto simp: last_some_append here)
  have "last_some (map carried_read_only decorator_list) = carried_read_only tag"
    using assms(1,2) unrecognised_carries_nothing(1) [of after]
      unrecognised_carries_nothing(1) [of before]
    by (simp add: last_some_append split: option.splits)
  then have "(case last_some (map carried_read_only decorator_list) of
                None \<Rightarrow> False | Some b \<Rightarrow> b) = ro"
    using tagv by auto
  then show ?thesis
    by (subst tagged_method [OF assms(1) kind none]) simp
qed

text \<open>\<^verbatim>\<open>@primitive(read_only=True)\<close> below a decorator that is no capability tag.\<close>

theorem primitive_read_only_truth_value_witness:
  "decorator_kind (Name ''staticmethod'') = None
   \<and> (\<exists>m. methods_loop no_files []
             [FunctionDef ''get'' (Other []) []
                [Name ''staticmethod'',
                 Call (Name ''primitive'') [] [(Some ''read_only'', Constant (CBool True))]]
                None [] 3 (Some 4)] []
           = [m]
        \<and> dm_method_type m = ''primitive'' \<and> dm_read_only m = True)"
  using primitive_read_only_truth_value
    [of "[Name ''staticmethod'',
          Call (Name ''primitive'') [] [(Some ''read_only'', Constant (CBool True))]]"
        "[Name ''staticmethod'']"
        "Call (Name ''primitive'') [] [(Some ''read_only'', Constant (CBool True))]"
        "[]" True "[]" "[]" "[]" "CBool True" "[]"
        no_files "[]" "''get''" "Other []" "[]" None "[]" 3 "Some 4"]
  by simp

subsection \<open>The bare decomposition marker\<close>

text \<open>
  Claim C2, as stated, fails: a method whose decorator is the bare name \<^verbatim>\<open>decomposition\<close>
  is not listed at all. The loop looks at a bare name only for \<^verbatim>\<open>primitive\<close>.
\<close>

theorem bare_decomposition_counterexample:
  "extract_decorated_methods no_files
     (ClassDef ''Trip'' [Name ''PlanExecute''] []
        [FunctionDef ''plan'' (Other []) [] [Name ''decomposition''] None [] 3 (Some 4)]
        [] [])
     [] = []"
  by (simp add: extract_decorated_methods_def decorator_tags_def initial_tags_def Let_def)

text \<open>
  Claim C2, amended. The marker \<^verbatim>\<open>decomposition\<close> is recognised in its call form only. Among
  decorators that are no capability tags, the bare name \<^verbatim>\<open>decomposition\<close> leaves the method
  out of the list; the call \<^verbatim>\<open>decomposition()\<close> without arguments lists it as a decomposition
  with empty \<open>intent\<close> and \<open>expanded_intent\<close>; the bare name \<^verbatim>\<open>primitive\<close> lists it as a
  primitive.
\<close>

theorem decomposition_call_form_only:
  assumes "\<forall>d \<in> set (before @ after). decorator_kind d = None"
  shows "methods_loop w source_lines
           [FunctionDef name args body (before @ Name ''decomposition'' # after)
              returns type_params lineno end_lineno] [] = []
     \<and> (\<exists>m. methods_loop w source_lines
               [FunctionDef name args body (before @ Call (Name ''decomposition'') [] [] # after)
                  returns type_params lineno end_lineno] [] = [m]
          \<and> dm_method_type m = ''decomposition'' \<and> dm_intent m = ''''
          \<and> dm_expanded_intent m = '''')
     \<and> (\<exists>m. methods_loop w source_lines
               [FunctionDef name args body (before @ Name ''primitive'' # after)
                  returns type_params lineno end_lineno] [] = [m]
          \<and> dm_method_type m = ''primitive'')"
proof -
  have after: "\<forall>p \<in> set after. decorator_kind p = None"
    using assms by simp
  have before: "\<forall>p \<in> set before. decorator_kind p = None"
    using assms by simp
  have "\<forall>d \<in> set (before @ Name ''decomposition'' # after). decorator_kind d = None"
    using assms by simp
  then have bare: "methods_loop w source_lines
      [FunctionDef name args body (before @ Name ''decomposition'' # after)
         returns type_params lineno end_lineno] [] = []"
    by (rule untagged_method)
  have no_intent: "last_some (map carried_intent before @ None # map carried_intent after) = None"
    and no_expanded: "last_some (map carried_expanded_intent before
        @ None # map carried_expanded_intent after) = None"
    using unrecognised_carries_nothing(2,3) [OF after] unrecognised_carries_nothing(2,3) [OF before]
    by (simp_all add: last_some_append)
  have call: "\<exists>m. methods_loop w source_lines
      [FunctionDef name args body (before @ Call (Name ''decomposition'') [] [] # after)
         returns type_params lineno end_lineno] [] = [m]
      \<and> dm_method_type m = ''decomposition'' \<and> dm_intent m = '''' \<and> dm_expanded_intent m = ''''"
    by (subst tagged_method [OF refl _ after, of _ "''decomposition''"])
       (simp_all add: no_intent no_expanded)
  have prim: "\<exists>m. methods_loop w source_lines
      [FunctionDef name args body (before @ Name ''primitive'' # after)
         returns type_params lineno end_lineno] [] = [m]
      \<and> dm_method_type m = ''primitive''"
    by (subst tagged_method [OF refl _ after, of _ "''primitive''"]) simp_all
  from bare call prim show ?thesis by (intro conjI)
qed

text \<open>The three markers alone on a method, below a decorator that is no capability tag.\<close>

theorem decomposition_call_form_only_witness:
  "decorator_kind (Name ''staticmethod'') = None
   \<and> methods_loop no_files []
       [FunctionDef ''plan'' (Other []) [] [Name ''staticmethod'', Name ''decomposition'']
          None [] 3 (Some 4)] [] = []
   \<and> map (\<lambda>m. (dm_method_type m, dm_intent m, dm_expanded_intent m))
       (methods_loop no_files []
          [FunctionDef ''plan'' (Other []) []
             [Name ''staticmethod'', Call (Name ''decomposition'') [] []]
             None [] 3 (Some 4)] []) = [(''decomposition'', '''', '''')]
   \<and> map dm_method_type
       (methods_loop no_files []
          [FunctionDef ''plan'' (Other []) [] [Name ''staticmethod'', Name ''primitive'']
             None [] 3 (Some 4)] []) = [''primitive'']"
  using decomposition_call_form_only
    [of "[Name ''staticmethod'']" "[]" no_files "[]" "''plan''" "Other []" "[]" None "[]" 3 "Some 4"]
  by auto

subsection \<open>The signature of a method\<close>





lemma line_breaks_append [simp]: "line_breaks (a @ b) = line_breaks a + line_breaks b"
  by (simp add: line_breaks_def)


lemma line_breaks_rev [simp]: "line_breaks (rev s) = line_breaks s"
  by (induction s) (simp_all add: line_breaks_def)






lemma splitlines_from_no_line_feed:
  "l \<in> set (splitlines_from cur s) \<Longrightarrow> CHR 0x0A \<notin> set cur \<Longrightarrow> CHR 0x0A \<notin> set l"
proof (induction cur s arbitrary: l rule: splitlines_from.induct)
  case (1 cur)
  then show ?case by (auto split: if_splits)
next
  case (2 cur c)
  have "is_linebreak (CHR 0x0A)" by (simp add: is_linebreak_def)
  with 2 show ?case by (auto split: if_splits)
next
  case (3 cur c d ds)
  have "is_linebreak (CHR 0x0A)" by (simp add: is_linebreak_def)
  with 3 show ?case by (auto split: if_splits)
qed

lemma splitlines_no_line_feed: "\<forall>l \<in> set (splitlines s). CHR 0x0A \<notin> set l"
  using splitlines_from_no_line_feed [of _ "[]" s] by (auto simp: splitlines_def)




subsection \<open>The manifest\<close>

lemma manifest_filename_loop_no_call:
  assumes "\<forall>n \<in> set items. load_manifest_call n = None"
  shows "manifest_filename_loop items = Some ''''"
  using assms by (induction items) simp_all

lemma manifest_filename_loop_first_call:
  assumes "\<forall>n \<in> set pre. load_manifest_call n = None"
    and "load_manifest_call item = Some (args, kws)"
  shows "manifest_filename_loop (pre @ item # post) =
     (case second_arg_constant args of
        Some c \<Rightarrow> Some (py_str c)
      | None \<Rightarrow> manifest_name_keyword kws)"
  using assms by (induction pre) simp_all

lemma manifest_name_keyword_none:
  assumes "\<forall>kw \<in> set kws. keyword_constant ''manifest_name'' kw = None"
  shows "manifest_name_keyword kws = None"
  using assms by (induction kws) simp_all

text \<open>
  A file name other than the empty string comes from a \<^verbatim>\<open>load_manifest\<close> call in the class.
\<close>

lemma manifest_call_present:
  assumes "extract_manifest_filename class_node \<noteq> Some ''''"
  shows "\<exists>n \<in> set (walk class_node). load_manifest_call n \<noteq> None"
proof (rule ccontr)
  assume "\<not> (\<exists>n \<in> set (walk class_node). load_manifest_call n \<noteq> None)"
  then have "\<forall>n \<in> set (walk class_node). load_manifest_call n = None" by blast
  then have "manifest_filename_loop (walk class_node) = Some ''''"
    by (rule manifest_filename_loop_no_call)
  with assms show False by (simp add: extract_manifest_filename_def)
qed

text \<open>
  When the first \<^verbatim>\<open>load_manifest\<close> call that the walk yields has a single argument and no
  keyword \<^verbatim>\<open>manifest_name\<close>, the default file name is used.
\<close>

lemma default_manifest_name:
  assumes "walk class_node = pre @ Call (Name ''load_manifest'') [arg] kws # post"
    and "\<forall>n \<in> set pre. load_manifest_call n = None"
    and "\<forall>kw \<in> set kws. fst kw \<noteq> Some ''manifest_name''"
  shows "extract_manifest_filename class_node = None"
proof -
  have "\<forall>kw \<in> set kws. keyword_constant ''manifest_name'' kw = None"
    using assms(3) by (simp add: keyword_constant_def)
  then have "manifest_name_keyword kws = None"
    by (rule manifest_name_keyword_none)
  then show ?thesis
    using manifest_filename_loop_first_call [OF assms(2), of _ "[arg]" kws post]
    by (simp add: extract_manifest_filename_def assms(1))
qed

text \<open>
  Under the default name the manifest is \<^verbatim>\<open><stem>.manifest.json\<close> in the directory of the
  source file. When it does not exist, or loading it raises \<^verbatim>\<open>JSONDecodeError\<close> or \<^verbatim>\<open>OSError\<close>,
  the metadata is empty and nothing is raised.
\<close>

lemma default_manifest_lenient:
  assumes "mp = path_join w (path_parent w file_path) (path_stem w file_path @ ''.manifest.json'')"
    and "\<not> path_exists w mp \<or> json_load w mp = Inl JSONDecodeError \<or> json_load w mp = Inl OSError"
  shows "load_manifest_metadata w file_path None = Inr empty_manifest"
  using assms by (auto simp: load_manifest_metadata_def manifest_path_def Let_def)

lemma manifest_of_json_errors:
  "manifest_of_json data = Inl e \<Longrightarrow> e = AttributeError \<or> e = ValidationError"
  by (cases data) (auto split: option.splits)

lemma default_manifest_loaded:
  assumes "mp = path_join w (path_parent w file_path) (path_stem w file_path @ ''.manifest.json'')"
    and "path_exists w mp" and "json_load w mp = Inr data"
  shows "load_manifest_metadata w file_path None = manifest_of_json data"
  using assms manifest_of_json_errors [of data]
  by (auto simp: load_manifest_metadata_def manifest_path_def Let_def split: sum.splits)

lemma class_agent_fields:
  assumes "class_agent w file_path source_lines
      (ClassDef class_name bases keywords body decorator_list type_params) = Inr (Some a)"
  shows "\<exists>n d v. (if extract_manifest_filename
                      (ClassDef class_name bases keywords body decorator_list type_params)
                    \<noteq> Some ''''
               then map_sum id (\<lambda>m. merge_manifest m
                      (inline_metadata
                         (ClassDef class_name bases keywords body decorator_list type_params)
                         class_name))
                     (load_manifest_metadata w file_path
                        (extract_manifest_filename
                           (ClassDef class_name bases keywords body decorator_list type_params)))
               else Inr (inline_metadata
                      (ClassDef class_name bases keywords body decorator_list type_params)
                      class_name)) = Inr (n, d, v)
     \<and> da_name a = n \<and> da_description a = docstring_description w body d \<and> da_version a = v"
  using assms
  by (auto simp: Let_def split: option.splits if_splits sum.splits prod.splits)

text \<open>Without a \<^verbatim>\<open>load_manifest\<close> call the agent has the inline values and defaults.\<close>

lemma no_manifest_call_inline_values:
  assumes "class_agent w file_path source_lines class_node = Inr (Some a)"
    and "class_node = ClassDef class_name bases keywords body decorator_list type_params"
    and "extract_manifest_filename class_node = Some ''''"
    and "inline_metadata class_node class_name = (n, d, v)"
  shows "da_name a = n \<and> da_version a = v \<and> da_description a = docstring_description w body d"
  using class_agent_fields [OF assms(1) [unfolded assms(2)]] assms(2-4) by auto

lemma agents_loop_no_more:
  assumes "\<forall>n \<in> set items. class_agent w p ls n = Inr None"
  shows "agents_loop w p ls items agents = Inr agents"
  using assms by (induction items) simp_all

text \<open>The example class \<open>manifest_class\<close> in the example worlds.\<close>

lemma calc_world_facts:
  "read_text (calc_with_manifest loaded) [''agents'', ''calc.py'']
     = Inr ''class Calc(PlanExecute): ...''"
  "ast_parse (calc_with_manifest loaded) ''class Calc(PlanExecute): ...''
     = Inr (Module [manifest_class])"
  "path_exists (calc_with_manifest loaded) [''agents'', ''calc.py'']"
  "path_is_file (calc_with_manifest loaded) [''agents'', ''calc.py'']"
  "manifest_path (calc_with_manifest loaded) [''agents'', ''calc.py''] None
     = [''agents'', ''calc.manifest.json'']"
  "path_exists (calc_with_manifest loaded) [''agents'', ''calc.manifest.json'']"
  "json_load (calc_with_manifest loaded) [''agents'', ''calc.manifest.json''] = loaded"
  by (simp_all add: calc_with_manifest_def file_world_def manifest_path_def)

lemma manifest_class_facts:
  "extract_manifest_filename manifest_class = None"
  "inline_metadata manifest_class ''Calc'' = (''Inline'', ''A'', '''')"
  "walk (Module [manifest_class]) = Module [manifest_class] # manifest_class #
      walk_queue (iter_child_nodes manifest_class)"
  "\<forall>n \<in> set (walk_queue (iter_child_nodes manifest_class)). class_agent w p ls n = Inr None"
  by (simp_all add: manifest_class_def extract_manifest_filename_def inline_metadata_def
      walk_unfold keyword_constant_def)

text \<open>
  Claim C1. For a discovered agent whose class has a \<^verbatim>\<open>load_manifest\<close> call (the scanner
  found a manifest file name for it) and whose manifest was loaded as \<open>m\<close>: for each of
  \<open>name\<close>, \<open>description\<close> and \<open>version\<close>, a non-empty value of \<open>m\<close> is the value of the agent,
  over any keyword of the initializer call and any default; where the value of \<open>m\<close> is empty
  (also when the manifest has no such member), the agent has the value it has without a
  manifest, which is the inline value or default (for the description: the inline value, or
  else the first line of the class docstring), see \<open>no_manifest_call_inline_values\<close>.
\<close>

theorem manifest_overrides_inline:
  assumes "class_agent w file_path source_lines class_node = Inr (Some a)"
    and "class_node = ClassDef class_name bases keywords body decorator_list type_params"
    and "extract_manifest_filename class_node \<noteq> Some ''''"
    and "load_manifest_metadata w file_path (extract_manifest_filename class_node) = Inr m"
    and "inline_metadata class_node class_name = (n, d, v)"
  shows "da_name a = (if mm_name m \<noteq> '''' then mm_name m else n)
     \<and> da_version a = (if mm_version m \<noteq> '''' then mm_version m else v)
     \<and> da_description a =
         (if mm_description m \<noteq> '''' then mm_description m
          else docstring_description w body d)"
proof -
  from class_agent_fields [OF assms(1) [unfolded assms(2)]] assms(2-5)
  obtain n' d' v' where "merge_manifest m (n, d, v) = (n', d', v')"
    and "da_name a = n'" and "da_description a = docstring_description w body d'"
    and "da_version a = v'"
    by auto
  then show ?thesis
    by (auto simp: merge_manifest_def docstring_description_def)
qed

text \<open>
  The initializer sets \<^verbatim>\<open>name="Inline"\<close> and \<^verbatim>\<open>description="A"\<close>, the manifest sets
  \<^verbatim>\<open>description\<close> to \<^verbatim>\<open>"B"\<close> and \<^verbatim>\<open>version\<close> to \<^verbatim>\<open>"2.0"\<close> and has no name: the agent is named
  \<^verbatim>\<open>Inline\<close>, described by \<^verbatim>\<open>B\<close>, of version \<^verbatim>\<open>2.0\<close>.
\<close>

theorem manifest_overrides_inline_witness:
  "\<exists>a m. class_agent manifest_world [''agents'', ''calc.py''] [] manifest_class = Inr (Some a)
     \<and> load_manifest_metadata manifest_world [''agents'', ''calc.py'']
          (extract_manifest_filename manifest_class) = Inr m
     \<and> mm_name m = '''' \<and> mm_description m = ''B'' \<and> mm_version m = ''2.0''
     \<and> da_name a = ''Inline'' \<and> da_version a = ''2.0'' \<and> da_description a = ''B''"
proof -
  let ?m = "\<lparr>mm_name = '''', mm_description = ''B'', mm_version = ''2.0''\<rparr>"
  have load: "load_manifest_metadata manifest_world [''agents'', ''calc.py'']
      (extract_manifest_filename manifest_class) = Inr ?m"
    by (simp add: manifest_class_facts(1) load_manifest_metadata_def manifest_world_def
        calc_world_facts dict_get_def Let_def)
  have "\<exists>a. class_agent manifest_world [''agents'', ''calc.py''] [] manifest_class = Inr (Some a)"
    using load manifest_class_facts(1,2)
    by (simp add: manifest_class_def valid_base_names_def merge_manifest_def Let_def)
  then obtain a
    where a: "class_agent manifest_world [''agents'', ''calc.py''] [] manifest_class = Inr (Some a)"
    by blast
  have "da_name a = ''Inline'' \<and> da_version a = ''2.0'' \<and> da_description a = ''B''"
    using manifest_overrides_inline [OF a manifest_class_def _ load manifest_class_facts(2)]
    by (simp add: manifest_class_facts(1))
  with a load show ?thesis by (intro exI [of _ a] exI [of _ ?m] conjI) simp_all
qed

text \<open>
  Claim C4. The resolution of the default name holds (\<open>default_manifest_name\<close>), and so does
  the lenient handling of a manifest that is missing or whose text \<^verbatim>\<open>json.load\<close> rejects with
  \<^verbatim>\<open>JSONDecodeError\<close> (\<open>default_manifest_lenient\<close>). The claim fails for a manifest file that
  cannot be parsed as \<^verbatim>\<open>JSON\<close> because its bytes are not valid UTF-8: \<^verbatim>\<open>json.load\<close> raises
  \<^verbatim>\<open>UnicodeDecodeError\<close> on reading it, which is neither of the two exceptions caught, and the
  error leaves the scan of the file.
\<close>

theorem undecodable_manifest_raises:
  "extract_manifest_filename manifest_class = None
   \<and> load_manifest_metadata undecodable_manifest_world [''agents'', ''calc.py''] None
       = Inl UnicodeDecodeError
   \<and> scan_file_for_agents undecodable_manifest_world [''agents'', ''calc.py'']
       = Inl UnicodeDecodeError"
proof -
  let ?w = undecodable_manifest_world
  have load: "load_manifest_metadata ?w [''agents'', ''calc.py''] None = Inl UnicodeDecodeError"
    by (simp add: load_manifest_metadata_def Let_def undecodable_manifest_world_def
        calc_world_facts)
  have "class_agent ?w [''agents'', ''calc.py''] ls manifest_class = Inl UnicodeDecodeError" for ls
    using load manifest_class_facts(1,2)
    by (simp add: manifest_class_def valid_base_names_def Let_def)
  then have "scan_file_for_agents ?w [''agents'', ''calc.py''] = Inl UnicodeDecodeError"
    by (simp add: scan_file_for_agents_def extract_agent_info_from_ast_def
        undecodable_manifest_world_def calc_world_facts manifest_class_facts(3))
  with load manifest_class_facts(1) show ?thesis by simp
qed

text \<open>So the scan of the file with the undecodable manifest does not return.\<close>

theorem undecodable_manifest_raises_witness:
  "isl (scan_file_for_agents undecodable_manifest_world [''agents'', ''calc.py''])"
  using undecodable_manifest_raises by simp

text \<open>
  With a manifest whose text is not \<^verbatim>\<open>JSON\<close> the scan returns the agent with its inline
  values.
\<close>

lemma malformed_manifest_example:
  "map_sum id (map (\<lambda>a. (da_name a, da_description a, da_version a)))
     (scan_file_for_agents malformed_manifest_world [''agents'', ''calc.py''])
   = Inr [(''Inline'', ''A'', '''')]"
proof -
  let ?w = malformed_manifest_world
  have load: "load_manifest_metadata ?w [''agents'', ''calc.py''] None = Inr empty_manifest"
    by (rule default_manifest_lenient [OF refl])
       (simp add: malformed_manifest_world_def calc_world_facts
          calc_world_facts(5) [unfolded manifest_path_def, simplified])
  have "\<exists>a. class_agent ?w [''agents'', ''calc.py''] ls manifest_class = Inr (Some a)
      \<and> (da_name a, da_description a, da_version a) = (''Inline'', ''A'', '''')" for ls
    using load manifest_class_facts(1,2)
    by (simp add: manifest_class_def valid_base_names_def Let_def merge_manifest_def
        empty_manifest_def docstring_description_def)
  then obtain a where "class_agent ?w [''agents'', ''calc.py'']
        (splitlines ''class Calc(PlanExecute): ...'') manifest_class = Inr (Some a)"
    and "(da_name a, da_description a, da_version a) = (''Inline'', ''A'', '''')"
    by blast
  then show ?thesis
    by (simp add: scan_file_for_agents_def extract_agent_info_from_ast_def
        malformed_manifest_world_def calc_world_facts manifest_class_facts(3)
        agents_loop_no_more [OF manifest_class_facts(4)])
qed

subsection \<open>Files that cannot be scanned\<close>

text \<open>
  A file whose reading raises \<^verbatim>\<open>OSError\<close>, or whose text the parser rejects with a
  \<^verbatim>\<open>SyntaxError\<close>, gives no agents, and the scan of a directory goes on to the next file: when
  every file that is scanned returns, the result is the concatenation of what the files give.
\<close>

lemma failed_file_gives_no_agents:
  assumes "read_text w file_path = Inl OSError
     \<or> read_text w file_path = Inr source \<and> ast_parse w source = Inl SyntaxError"
  shows "extract_agent_info_from_ast w file_path = Inr []"
  using assms by (auto simp: extract_agent_info_from_ast_def)

lemma directory_loop_results:
  assumes "\<forall>f \<in> set files. ''__pycache__'' \<notin> set (path_parts w f)
      \<longrightarrow> extract_agent_info_from_ast w f = Inr (r f)"
  shows "directory_loop w files agents =
     Inr (agents @ concat (map r (filter (\<lambda>f. ''__pycache__'' \<notin> set (path_parts w f)) files)))"
  using assms by (induction files arbitrary: agents) simp_all

lemma calc_agent:
  "\<exists>a. class_agent w p ls calc_class = Inr (Some a) \<and> da_class_name a = ''Calc''"
  by (simp add: calc_class_def Let_def valid_base_names_def
        inline_metadata_def extract_manifest_filename_def walk_unfold)

lemma agents_directory_facts:
  "read_text (agents_directory legacy) [''agents'', ''legacy.py''] = legacy"
  "read_text (agents_directory legacy) [''agents'', ''broken.py''] = Inr ''def broken(:''"
  "read_text (agents_directory legacy) [''agents'', ''calc.py'']
     = Inr ''class Calc(PlanExecute): ...''"
  "ast_parse (agents_directory legacy) ''def broken(:'' = Inl SyntaxError"
  "ast_parse (agents_directory legacy) ''class Calc(PlanExecute): ...''
     = Inr (Module [calc_class])"
  "path_exists (agents_directory legacy) [''agents'', ''legacy.py'']"
  "path_is_file (agents_directory legacy) [''agents'', ''legacy.py'']"
  "path_exists (agents_directory legacy) [''agents'']"
  "path_is_dir (agents_directory legacy) [''agents'']"
  "rglob_py (agents_directory legacy) [''agents''] =
     [[''agents'', ''broken.py''], [''agents'', ''calc.py''], [''agents'', ''legacy.py'']]"
  "path_parts (agents_directory legacy) = (\<lambda>p. p)"
  by (simp_all add: agents_directory_def file_world_def)

lemma calc_file_agents:
  "\<exists>a. extract_agent_info_from_ast (agents_directory legacy) [''agents'', ''calc.py''] = Inr [a]
     \<and> da_class_name a = ''Calc''"
proof -
  obtain a where a: "class_agent (agents_directory legacy) [''agents'', ''calc.py'']
       (splitlines ''class Calc(PlanExecute): ...'') calc_class = Inr (Some a)"
    and name: "da_class_name a = ''Calc''"
    using calc_agent [of "agents_directory legacy" "[''agents'', ''calc.py'']"
        "splitlines ''class Calc(PlanExecute): ...''"] by blast
  from a have "extract_agent_info_from_ast (agents_directory legacy) [''agents'', ''calc.py'']
      = Inr [a]"
    by (simp add: extract_agent_info_from_ast_def agents_directory_facts walk_unfold
          calc_class_def [symmetric])
       (simp add: calc_class_def)
  with name show ?thesis by blast
qed

text \<open>
  With \<^verbatim>\<open>legacy.py\<close> unreadable (\<^verbatim>\<open>OSError\<close>) and \<^verbatim>\<open>broken.py\<close> rejected by the parser, the scan
  of the directory returns the agent of \<^verbatim>\<open>calc.py\<close>.
\<close>

lemma failed_files_example:
  "scan_file_for_agents (agents_directory (Inl OSError)) [''agents'', ''legacy.py''] = Inr []
   \<and> map_sum id (map da_class_name)
       (scan_directory_for_agents (agents_directory (Inl OSError)) [''agents''])
     = Inr [''Calc'']"
proof -
  let ?w = "agents_directory (Inl OSError)"
  have legacy: "extract_agent_info_from_ast ?w [''agents'', ''legacy.py''] = Inr []"
    by (rule failed_file_gives_no_agents) (simp add: agents_directory_facts)
  have broken: "extract_agent_info_from_ast ?w [''agents'', ''broken.py''] = Inr []"
    by (rule failed_file_gives_no_agents [of _ _ "''def broken(:''"])
       (simp add: agents_directory_facts)
  obtain a where "extract_agent_info_from_ast ?w [''agents'', ''calc.py''] = Inr [a]"
    and "da_class_name a = ''Calc''"
    using calc_file_agents by blast
  with legacy broken show ?thesis
    by (simp add: scan_file_for_agents_def scan_directory_for_agents_def agents_directory_facts)
qed

text \<open>
  Claim C3. The claim holds for a file whose reading raises \<^verbatim>\<open>OSError\<close> and for a file with
  a syntax error (\<open>failed_file_gives_no_agents\<close>, \<open>directory_loop_results\<close>). It fails for
  a file that cannot be read because its bytes are not valid UTF-8: \<^verbatim>\<open>read_text\<close> raises
  \<^verbatim>\<open>UnicodeDecodeError\<close>, which is neither of the two exceptions caught, so the scan of the
  file raises, and so does the scan of the directory that holds it, although \<^verbatim>\<open>calc.py\<close>
  beside it has an agent.
\<close>

theorem undecodable_source_file_raises:
  "scan_file_for_agents (agents_directory (Inl UnicodeDecodeError)) [''agents'', ''legacy.py'']
     = Inl UnicodeDecodeError
   \<and> scan_directory_for_agents (agents_directory (Inl UnicodeDecodeError)) [''agents'']
     = Inl UnicodeDecodeError"
proof -
  let ?w = "agents_directory (Inl UnicodeDecodeError)"
  have legacy: "extract_agent_info_from_ast ?w [''agents'', ''legacy.py''] = Inl UnicodeDecodeError"
    by (simp add: extract_agent_info_from_ast_def agents_directory_facts)
  have broken: "extract_agent_info_from_ast ?w [''agents'', ''broken.py''] = Inr []"
    by (rule failed_file_gives_no_agents [of _ _ "''def broken(:''"])
       (simp add: agents_directory_facts)
  obtain a where "extract_agent_info_from_ast ?w [''agents'', ''calc.py''] = Inr [a]"
    using calc_file_agents by blast
  with legacy broken show ?thesis
    by (simp add: scan_file_for_agents_def scan_directory_for_agents_def agents_directory_facts)
qed

text \<open>So the scan of the directory does not return, and the agent of \<^verbatim>\<open>calc.py\<close> is lost.\<close>

theorem undecodable_source_file_raises_witness:
  "isl (scan_directory_for_agents (agents_directory (Inl UnicodeDecodeError)) [''agents''])"
  using undecodable_source_file_raises by simp

subsection \<open>The order of the agents of a file\<close>

lemma child_smaller:
  assumes "c \<in> set (iter_child_nodes n)"
  shows "size c < size n"
proof -
  have node_size: "sum_list (map (\<lambda>n. Suc (size n)) xs) = size_list size xs" for xs :: "node list"
    by (induction xs) auto
  have kw_size: "sum_list (map ((\<lambda>n. Suc (size n)) \<circ> (\<lambda>(a, v). Keyword a v)) kws)
      = size_list (size_prod (\<lambda>_. 0) size) kws" for kws :: "(string option \<times> node) list"
    by (induction kws) auto
  have children: "sum_list (map (\<lambda>n. Suc (size n)) (iter_child_nodes n)) \<le> size n"
  proof (cases n)
    case (FunctionDef name args body decs returns tps lineno end_lineno)
    then show ?thesis by (cases returns) (simp_all add: node_size)
  qed (simp_all add: node_size kw_size)
  have "Suc (size c) \<in> set (map (\<lambda>n. Suc (size n)) (iter_child_nodes n))"
    using assms by simp
  then have "Suc (size c) \<le> sum_list (map (\<lambda>n. Suc (size n)) (iter_child_nodes n))"
    by (simp add: member_le_sum_list)
  with children show ?thesis by simp
qed

text \<open>Below the depth \<open>size n\<close> a node has no nodes.\<close>

lemma nodes_at_deep: "size n < k \<Longrightarrow> nodes_at k n = []"
proof (induction k arbitrary: n)
  case 0
  then show ?case by simp
next
  case (Suc k)
  have "nodes_at k c = []" if "c \<in> set (iter_child_nodes n)" for c
    using child_smaller [OF that] Suc.prems by (intro Suc.IH) simp
  then show ?case by simp
qed

lemma interleave_levels:
  "as 0 @ concat (map (\<lambda>k. bs k @ as (Suc k)) [0..<d])
     = concat (map (\<lambda>k. as k @ bs k) [0..<d]) @ as d"
  by (induction d) simp_all

text \<open>
  The queue loop of \<^verbatim>\<open>ast.walk\<close> yields the nodes level by level: the queue itself, then
  the children of its nodes, then their children, and so on.
\<close>

lemma walk_queue_levels:
  assumes "\<forall>k \<ge> d. concat (map (nodes_at k) q) = []"
  shows "walk_queue q = concat (map (\<lambda>k. concat (map (nodes_at k) q)) [0..<d])"
  using assms
proof (induction q arbitrary: d rule: walk_queue.induct)
  case 1
  then show ?case by simp
next
  case (2 n todo)
  have deep: "nodes_at k n = []" "concat (map (nodes_at k) todo) = []" if "d \<le> k" for k
    using "2.prems" that by auto
  have "\<forall>k \<ge> d. concat (map (nodes_at k) (todo @ iter_child_nodes n)) = []"
    using deep(2) deep(1) [of "Suc k" for k] by simp
  then have "walk_queue (todo @ iter_child_nodes n) =
      concat (map (\<lambda>k. concat (map (nodes_at k) (todo @ iter_child_nodes n))) [0..<d])"
    by (rule "2.IH")
  then have "walk_queue (n # todo) =
      nodes_at 0 n @ concat (map (\<lambda>k. concat (map (nodes_at k) todo) @ nodes_at (Suc k) n) [0..<d])"
    by simp
  also have "\<dots> = concat (map (\<lambda>k. nodes_at k n @ concat (map (nodes_at k) todo)) [0..<d])
      @ nodes_at d n"
    by (rule interleave_levels)
  also have "\<dots> = concat (map (\<lambda>k. concat (map (nodes_at k) (n # todo))) [0..<d])"
    using deep(1) [of d] by simp
  finally show ?case .
qed

lemma walk_levels: "walk tree = concat (map (\<lambda>k. nodes_at k tree) [0..<Suc (size tree)])"
proof -
  have "\<forall>k \<ge> Suc (size tree). concat (map (nodes_at k) [tree]) = []"
    by (simp add: nodes_at_deep)
  then have "walk_queue [tree]
      = concat (map (\<lambda>k. concat (map (nodes_at k) [tree])) [0..<Suc (size tree)])"
    by (rule walk_queue_levels)
  then show ?thesis by (simp add: walk_def)
qed

text \<open>The walk yields the nodes of the tree, each as often as the document holds it.\<close>

lemma walk_queue_nodes: "mset (walk_queue q) = mset (concat (map document_order q))"
proof (induction q rule: walk_queue.induct)
  case 1
  then show ?case by simp
next
  case (2 n todo)
  then show ?case
    by (simp add: document_order.simps [of n])
qed

lemma walk_nodes: "mset (walk tree) = mset (document_order tree)"
  using walk_queue_nodes [of "[tree]"] by (simp add: walk_def)

text \<open>The loop over the walk appends one agent for each candidate class, in turn.\<close>

lemma base_class_name_valid: "base_class_name bases = Some b \<Longrightarrow> b \<in> valid_base_names"
  by (induction bases rule: base_class_name.induct) (auto split: if_splits)

lemma class_agent_candidate:
  assumes "class_agent w p ls item = Inr r"
  shows "case r of
           None \<Rightarrow> \<not> is_candidate item
         | Some a \<Rightarrow> is_candidate item \<and> da_class_name a = class_name_of item"
proof (cases item)
  case (ClassDef name bases kws body decs tps)
  show ?thesis
  proof (cases "base_class_name bases")
    case None
    with ClassDef assms show ?thesis by auto
  next
    case (Some b)
    then have "b \<noteq> ''''"
      using base_class_name_valid [of bases b] by (auto simp: valid_base_names_def)
    with Some ClassDef assms show ?thesis
      by (auto simp: Let_def split: if_splits sum.splits prod.splits)
  qed
qed (use assms in auto)

lemma agents_loop_names:
  assumes "agents_loop w p ls items agents = Inr result"
  shows "map da_class_name result =
     map da_class_name agents @ map class_name_of (filter is_candidate items)"
  using assms
proof (induction items arbitrary: agents)
  case Nil
  then show ?case by simp
next
  case (Cons item items)
  show ?case
  proof (cases "class_agent w p ls item")
    case (Inl e)
    with Cons.prems show ?thesis by simp
  next
    case (Inr r)
    from class_agent_candidate [OF Inr] Inr Cons.prems Cons.IH show ?thesis
      by (cases r) auto
  qed
qed

text \<open>
  Claim C8, as stated, fails: with a class nested in the first of two classes, the agent
  of the second class comes before the agent of the nested class, which is declared above it
  in the document.
\<close>

theorem nested_class_counterexample:
  "map_sum id (map da_class_name) (scan_file_for_agents nested_world [''agents'', ''nested.py''])
     = Inr [''Outer'', ''Last'', ''Inner'']
   \<and> map class_name_of (filter is_candidate (document_order nested_module))
     = [''Outer'', ''Inner'', ''Last'']"
proof -
  have facts: "read_text nested_world [''agents'', ''nested.py'']
       = Inr ''class Outer(PlanExecute): ...''"
    "ast_parse nested_world ''class Outer(PlanExecute): ...'' = Inr nested_module"
    "path_exists nested_world [''agents'', ''nested.py'']"
    "path_is_file nested_world [''agents'', ''nested.py'']"
    by (simp_all add: nested_world_def file_world_def)
  have "\<exists>agents. agents_loop nested_world [''agents'', ''nested.py'']
        (splitlines ''class Outer(PlanExecute): ...'') (walk nested_module) [] = Inr agents"
    by (simp add: nested_module_def walk_unfold valid_base_names_def Let_def
        inline_metadata_def extract_manifest_filename_def)
  then obtain agents where loop: "agents_loop nested_world [''agents'', ''nested.py'']
        (splitlines ''class Outer(PlanExecute): ...'') (walk nested_module) [] = Inr agents"
    by blast
  have "map da_class_name agents = map class_name_of (filter is_candidate (walk nested_module))"
    using agents_loop_names [OF loop] by simp
  also have "\<dots> = [''Outer'', ''Last'', ''Inner'']"
    by (simp add: nested_module_def walk_unfold valid_base_names_def)
  finally have "map_sum id (map da_class_name)
      (scan_file_for_agents nested_world [''agents'', ''nested.py''])
      = Inr [''Outer'', ''Last'', ''Inner'']"
    using loop by (simp add: scan_file_for_agents_def extract_agent_info_from_ast_def facts)
  moreover have "map class_name_of (filter is_candidate (document_order nested_module))
      = [''Outer'', ''Inner'', ''Last'']"
    by (simp add: nested_module_def document_order.simps valid_base_names_def)
  ultimately show ?thesis by simp
qed

text \<open>
  Claim C8, amended. For every scanned file, the agents are the candidate classes in the
  order in which \<^verbatim>\<open>ast.walk\<close> yields their declarations. The walk is breadth-first: it yields
  the tree level by level (the classes at one nesting depth of the tree before those at a
  greater depth, from left to right within a depth, so the top-level classes come first, in
  document order), and it yields every node of the tree, so nested class declarations are
  found at any depth.
\<close>

theorem agents_in_breadth_first_order:
  assumes "read_text w file_path = Inr source"
    and "ast_parse w source = Inr tree"
    and "extract_agent_info_from_ast w file_path = Inr agents"
  shows "map da_class_name agents = map class_name_of (filter is_candidate (walk tree))
     \<and> (\<exists>depth. walk tree = concat (map (\<lambda>k. nodes_at k tree) [0..<depth]))
     \<and> mset (walk tree) = mset (document_order tree)"
proof -
  have "agents_loop w file_path (splitlines source) (walk tree) [] = Inr agents"
    using assms by (simp add: extract_agent_info_from_ast_def)
  then have "map da_class_name agents = map class_name_of (filter is_candidate (walk tree))"
    using agents_loop_names by fastforce
  moreover have "\<exists>depth. walk tree = concat (map (\<lambda>k. nodes_at k tree) [0..<depth])"
    using walk_levels by blast
  ultimately show ?thesis using walk_nodes by blast
qed

text \<open>The file \<^verbatim>\<open>agents/nested.py\<close>: \<^verbatim>\<open>Outer\<close> and \<^verbatim>\<open>Last\<close> of the top level, then \<^verbatim>\<open>Inner\<close>.\<close>

theorem agents_in_breadth_first_order_witness:
  "\<exists>agents. extract_agent_info_from_ast nested_world [''agents'', ''nested.py''] = Inr agents
     \<and> map da_class_name agents = [''Outer'', ''Last'', ''Inner'']
     \<and> concat (map (\<lambda>k. nodes_at k nested_module) [0..<4]) = walk nested_module"
proof -
  have facts: "read_text nested_world [''agents'', ''nested.py'']
       = Inr ''class Outer(PlanExecute): ...''"
    "ast_parse nested_world ''class Outer(PlanExecute): ...'' = Inr nested_module"
    by (simp_all add: nested_world_def file_world_def)
  have "\<exists>agents. agents_loop nested_world [''agents'', ''nested.py'']
        (splitlines ''class Outer(PlanExecute): ...'') (walk nested_module) [] = Inr agents"
    by (simp add: nested_module_def walk_unfold valid_base_names_def Let_def
        inline_metadata_def extract_manifest_filename_def)
  then obtain agents
    where agents: "extract_agent_info_from_ast nested_world [''agents'', ''nested.py''] = Inr agents"
    by (auto simp: extract_agent_info_from_ast_def facts)
  have "map da_class_name agents = map class_name_of (filter is_candidate (walk nested_module))"
    using agents_in_breadth_first_order [OF facts agents] by simp
  also have "\<dots> = [''Outer'', ''Last'', ''Inner'']"
    by (simp add: nested_module_def walk_unfold valid_base_names_def)
  finally have names: "map da_class_name agents = [''Outer'', ''Last'', ''Inner'']" .
  have levels: "concat (map (\<lambda>k. nodes_at k nested_module) [0..<4]) = walk nested_module"
    by (simp add: nested_module_def walk_unfold upt_conv_Cons eval_nat_numeral)
  from agents names levels show ?thesis by (intro exI [of _ agents] conjI)
qed

end
